theory Spec2Isabelle
  imports Main
begin

section \<open>Property paths (src/src/paths.ts)\<close>

text \<open>
  A \<^verbatim>\<open>PropertyPathArray\<close> is \<^verbatim>\<open>(string | number)[]\<close>. The numbers that the code
  itself produces are \<^verbatim>\<open>-1\<close> (the wildcard), the results of \<^verbatim>\<open>parseInt\<close> (an
  integer or \<^verbatim>\<open>NaN\<close>) and whatever integers a caller passes, so a number is
  modelled as an integer or \<^verbatim>\<open>NaN\<close>. Integers are exact: rounding to a double
  (beyond \<open>2 ^ 53\<close>) and the exponent notation of \<^verbatim>\<open>Number.prototype.toString\<close>
  (from \<open>10 ^ 21\<close>) are not modelled. Strings are \<^typ>\<open>string\<close>, one \<^typ>\<open>char\<close> per
  code unit, so the code units are those below 256.
\<close>

datatype jsnum = JNaN | JInt int

datatype segment = Key string | Num jsnum

datatype property_path = PathStr string | PathArr "segment list"

subsection \<open>Numbers and strings of the host language\<close>

definition isDigit :: "char \<Rightarrow> bool" where
  "isDigit c = (c \<in> set ''0123456789'')"

definition indexIn :: "string \<Rightarrow> char \<Rightarrow> nat" where
  "indexIn alphabet c = length (takeWhile (\<lambda>d. d \<noteq> c) alphabet)"

definition digitVal :: "char \<Rightarrow> int" where
  "digitVal c =
     (if isDigit c then int (indexIn ''0123456789'' c)
      else if c \<in> set ''abcdef'' then 10 + int (indexIn ''abcdef'' c)
      else 10 + int (indexIn ''ABCDEF'' c))"

definition isRadixDigit :: "int \<Rightarrow> char \<Rightarrow> bool" where
  "isRadixDigit radix c =
     (if radix = 16 then c \<in> set ''0123456789abcdefABCDEF'' else isDigit c)"

definition digitsValue :: "int \<Rightarrow> string \<Rightarrow> int" where
  "digitsValue radix z = foldl (\<lambda>acc c. acc * radix + digitVal c) 0 z"

definition jsWhitespace :: "char \<Rightarrow> bool" where
  "jsWhitespace c =
     (c \<in> set [CHR 0x09, CHR 0x0A, CHR 0x0B, CHR 0x0C, CHR 0x0D, CHR 0x20, CHR 0xA0])"

text \<open>
  \<^verbatim>\<open>parseInt(s)\<close> with no radix: leading white space is skipped, a sign is read, a
  \<^verbatim>\<open>0x\<close> prefix selects radix 16, and the longest run of digits is the value; no
  digit at all gives \<^verbatim>\<open>NaN\<close>.
\<close>

definition parseInt :: "string \<Rightarrow> jsnum" where
  "parseInt s =
     (let s1 = dropWhile jsWhitespace s;
          neg = (case s1 of [] \<Rightarrow> False | c # _ \<Rightarrow> c = CHR ''-'');
          s2 = (case s1 of [] \<Rightarrow> [] | c # cs \<Rightarrow> if c = CHR ''-'' \<or> c = CHR ''+'' then cs else s1);
          hex = (case s2 of a # b # _ \<Rightarrow> a = CHR ''0'' \<and> (b = CHR ''x'' \<or> b = CHR ''X'') | _ \<Rightarrow> False);
          radix = (if hex then 16 else 10);
          s3 = (if hex then drop 2 s2 else s2);
          z = takeWhile (isRadixDigit radix) s3
      in if z = [] then JNaN
         else JInt ((if neg then - 1 else 1) * digitsValue radix z))"

definition showDigit :: "nat \<Rightarrow> char" where
  "showDigit n = ''0123456789'' ! n"

fun showNat :: "nat \<Rightarrow> string" where
  "showNat n = (if n < 10 then [showDigit n] else showNat (n div 10) @ [showDigit (n mod 10)])"

declare showNat.simps [simp del]

text \<open>The string of a number, as a template literal and \<^verbatim>\<open>Array.prototype.join\<close> give it.\<close>

definition numToString :: "jsnum \<Rightarrow> string" where
  "numToString n =
     (case n of
        JNaN \<Rightarrow> ''NaN''
      | JInt i \<Rightarrow> if i < 0 then CHR ''-'' # showNat (nat (- i)) else showNat (nat i))"

subsection \<open>The regular expression of \<^verbatim>\<open>dottedPathToArray\<close>\<close>

text \<open>
  \<^verbatim>\<open>/^([^[]*)\[([0-9]+|\*)\]\.?(.*)$/\<close> has at most one way to match. Group 1 is
  everything before the first \<^verbatim>\<open>[\<close>; group 2 is a non-empty run of digits or a star,
  closed by \<^verbatim>\<open>]\<close>; an optional dot is skipped; group 3 is the rest, which must hold no
  line terminator because \<^verbatim>\<open>.\<close> matches none. \<open>indexToken\<close> reads group 2 and the
  closing bracket, \<open>bracketMatch\<close> returns the three groups.
\<close>

definition lineTerminator :: "char \<Rightarrow> bool" where
  "lineTerminator c = (c = CHR 0x0A \<or> c = CHR 0x0D)"

definition indexToken :: "string \<Rightarrow> (string \<times> string) option" where
  "indexToken r1 =
     (let ds = takeWhile isDigit r1; r2 = dropWhile isDigit r1
      in if ds \<noteq> [] then
           (case r2 of [] \<Rightarrow> None | c # r3 \<Rightarrow> if c = CHR '']'' then Some (ds, r3) else None)
         else
           (case r1 of
              a # b # r3 \<Rightarrow> if a = CHR ''*'' \<and> b = CHR '']'' then Some (''*'', r3) else None
            | _ \<Rightarrow> None))"

definition bracketMatch :: "string \<Rightarrow> (string \<times> string \<times> string) option" where
  "bracketMatch tail =
     (let m1 = takeWhile (\<lambda>c. c \<noteq> CHR ''['') tail;
          r = dropWhile (\<lambda>c. c \<noteq> CHR ''['') tail
      in case r of
           [] \<Rightarrow> None
         | _ # r1 \<Rightarrow>
             (case indexToken r1 of
                None \<Rightarrow> None
              | Some (m2, r3) \<Rightarrow>
                  let m3 = (case r3 of [] \<Rightarrow> [] | c # cs \<Rightarrow> if c = CHR ''.'' then cs else r3)
                  in if list_ex lineTerminator r3 then None else Some (m1, m2, m3)))"

lemma indexToken_shorter: "indexToken r1 = Some (m2, r3) \<Longrightarrow> length r3 < length r1"
proof -
  assume a: "indexToken r1 = Some (m2, r3)"
  have l: "length (dropWhile isDigit r1) \<le> length r1"
    by (rule length_dropWhile_le)
  show ?thesis
  proof (cases "takeWhile isDigit r1 = []")
    case True
    with a show ?thesis
      by (auto simp: indexToken_def split: list.splits if_splits)
  next
    case False
    with a obtain c where "dropWhile isDigit r1 = c # r3"
      by (auto simp: indexToken_def Let_def split: list.splits if_splits)
    with l show ?thesis by simp
  qed
qed

lemma bracketMatch_shorter:
  "bracketMatch tail = Some (m1, m2, m3) \<Longrightarrow> length m3 < length tail"
proof -
  assume a: "bracketMatch tail = Some (m1, m2, m3)"
  let ?r = "dropWhile (\<lambda>c. c \<noteq> CHR ''['') tail"
  have l: "length ?r \<le> length tail"
    by (rule length_dropWhile_le)
  from a obtain b r1 r3 where r: "?r = b # r1" and t: "indexToken r1 = Some (m2, r3)"
    and m: "m3 = (case r3 of [] \<Rightarrow> [] | c # cs \<Rightarrow> if c = CHR ''.'' then cs else r3)"
    by (auto simp: bracketMatch_def Let_def split: list.splits option.splits if_splits)
  from m have "length m3 \<le> length r3"
    by (cases r3) auto
  moreover from t have "length r3 < length r1"
    by (rule indexToken_shorter)
  moreover from r l have "length r1 < length tail"
    by simp
  ultimately show ?thesis by simp
qed

subsection \<open>The path codec\<close>

text \<open>
  \<^verbatim>\<open>dottedPathToArray\<close>: the loop runs while the tail is not empty. Without a match the
  whole tail is pushed as one key. With a match group 1 is pushed, then \<^verbatim>\<open>-1\<close> for a
  star and otherwise \<^verbatim>\<open>parseInt(match[1])\<close>, the number read from group 1 as the source
  has it, and the loop goes on with group 3.
\<close>

function dottedPathToArray :: "string \<Rightarrow> segment list" where
  "dottedPathToArray tail =
     (if length tail > 0 then
        (case bracketMatch tail of
           None \<Rightarrow> [Key tail]
         | Some (m1, m2, m3) \<Rightarrow>
             Key m1
             # (if m2 = ''*'' then Num (JInt (- 1)) else Num (parseInt m1))
             # dottedPathToArray m3)
      else [])"
  by pat_completeness auto
termination
  by (relation "measure length") (auto dest: bracketMatch_shorter)

declare dottedPathToArray.simps [simp del]

definition segToString :: "segment \<Rightarrow> string" where
  "segToString e = (case e of Key k \<Rightarrow> k | Num n \<Rightarrow> numToString n)"

definition arrayToDottedPath :: "segment list \<Rightarrow> string" where
  "arrayToDottedPath pathArray =
     (case pathArray of
        [] \<Rightarrow> []
      | firstElement # rest \<Rightarrow>
          segToString firstElement
          @ concat (map (\<lambda>pathElement.
              case pathElement of
                Num n \<Rightarrow> ''['' @ (if n = JInt (- 1) then ''*'' else numToString n) @ '']''
              | Key k \<Rightarrow> ''.'' @ k) rest))"

definition propertyPathToArray :: "property_path \<Rightarrow> segment list" where
  "propertyPathToArray p = (case p of PathStr s \<Rightarrow> dottedPathToArray s | PathArr a \<Rightarrow> a)"

definition propertyPathToDottedPath :: "property_path \<Rightarrow> string" where
  "propertyPathToDottedPath p = (case p of PathArr a \<Rightarrow> arrayToDottedPath a | PathStr s \<Rightarrow> s)"

definition pathDepth :: "property_path \<Rightarrow> nat" where
  "pathDepth p = length (propertyPathToArray p)"

subsection \<open>\<^verbatim>\<open>mapPaths\<close>\<close>

text \<open>
  \<^verbatim>\<open>mapPaths\<close> walks any value. A value is a primitive or a reference to an array or an
  object of the store, so that a value can reach itself. The result is built from new
  objects and arrays, so it is a tree. \<^verbatim>\<open>visited\<close> is one array that the calls on
  object fields share and push to, so a call returns it with its result; the calls on
  array elements are made without the third argument, so each starts from the default
  \<^verbatim>\<open>[]\<close>. An array is never pushed. Only objects are in \<^verbatim>\<open>visited\<close>, so
  \<^verbatim>\<open>visited.includes(value)\<close> is false for a primitive.
\<close>

datatype jsval = VNull | VUndefined | VBool bool | VNum int | VStr string | VRef nat

datatype cell = ArrayCell "jsval list" | ObjectCell "(string \<times> jsval) list"

type_synonym value_store = "nat \<Rightarrow> cell"

datatype mapped = MVal jsval | MArr "mapped list" | MObj "(string \<times> mapped) list"

text \<open>\<^verbatim>\<open>PathTransformer\<close>: the new path and the optional \<^verbatim>\<open>additionalOptions\<close>.\<close>

type_synonym path_transformer = "string \<Rightarrow> string \<times> (string \<times> mapped) list option"

text \<open>\<^verbatim>\<open>mappedObject[key] = v\<close> and \<^verbatim>\<open>_.assign(mappedObject, additionalOptions)\<close>\<close>

fun setKey :: "string \<Rightarrow> 'v \<Rightarrow> (string \<times> 'v) list \<Rightarrow> (string \<times> 'v) list" where
  "setKey k v [] = [(k, v)]"
| "setKey k v ((k', v') # kvs) = (if k = k' then (k, v) # kvs else (k', v') # setKey k v kvs)"

definition assign :: "(string \<times> 'v) list \<Rightarrow> (string \<times> 'v) list \<Rightarrow> (string \<times> 'v) list" where
  "assign mappedObject additionalOptions =
     foldl (\<lambda>obj (k, v). setKey k v obj) mappedObject additionalOptions"

definition includesValue :: "nat list \<Rightarrow> jsval \<Rightarrow> bool" where
  "includesValue visited v = (case v of VRef a \<Rightarrow> a \<in> set visited | _ \<Rightarrow> False)"

text \<open>\<^verbatim>\<open>key == 'path' && _.isString(value)\<close>, with the string.\<close>

definition pathField :: "string \<Rightarrow> jsval \<Rightarrow> string option" where
  "pathField key v = (if key = ''path'' then (case v of VStr s \<Rightarrow> Some s | _ \<Rightarrow> None) else None)"

text \<open>\<^verbatim>\<open>x.map(...)\<close>: the calls run in order; one without a result leaves the whole without.\<close>

fun allResults :: "'a option list \<Rightarrow> 'a list option" where
  "allResults [] = Some []"
| "allResults (None # rs) = None"
| "allResults (Some x # rs) = (case allResults rs of None \<Rightarrow> None | Some xs \<Rightarrow> Some (x # xs))"

text \<open>
  \<open>mapPathsKeys\<close> is the loop \<^verbatim>\<open>for (const key in x)\<close> over the fields that are left,
  with the \<^verbatim>\<open>mappedObject\<close> built so far. Both functions take fuel, since the walk need
  not end.
\<close>

fun mapPaths ::
    "nat \<Rightarrow> value_store \<Rightarrow> jsval \<Rightarrow> path_transformer \<Rightarrow> nat list \<Rightarrow> (mapped \<times> nat list) option"
  and mapPathsKeys ::
    "nat \<Rightarrow> value_store \<Rightarrow> (string \<times> jsval) list \<Rightarrow> path_transformer \<Rightarrow> nat list
      \<Rightarrow> (string \<times> mapped) list \<Rightarrow> ((string \<times> mapped) list \<times> nat list) option"
where
  "mapPaths 0 hv x transformPath visited = None"
| "mapPaths (Suc n) hv x transformPath visited =
     (case x of
        VRef a \<Rightarrow>
          (case hv a of
             ArrayCell elements \<Rightarrow>
               (case allResults
                       (map (\<lambda>element. map_option fst (mapPaths n hv element transformPath []))
                          elements) of
                  None \<Rightarrow> None
                | Some ys \<Rightarrow> Some (MArr ys, visited))
           | ObjectCell fields \<Rightarrow>
               (case mapPathsKeys n hv fields transformPath (visited @ [a]) [] of
                  None \<Rightarrow> None
                | Some (mappedObject, visited') \<Rightarrow> Some (MObj mappedObject, visited')))
      | primitive \<Rightarrow> Some (MVal primitive, visited))"
| "mapPathsKeys 0 hv fields transformPath visited mappedObject = None"
| "mapPathsKeys (Suc n) hv [] transformPath visited mappedObject = Some (mappedObject, visited)"
| "mapPathsKeys (Suc n) hv ((key, v) # fields) transformPath visited mappedObject =
     (case pathField key v of
        Some s \<Rightarrow>
          (case transformPath s of
             (newPath, additionalOptions) \<Rightarrow>
               mapPathsKeys n hv fields transformPath visited
                 (case additionalOptions of
                    None \<Rightarrow> setKey key (MVal (VStr newPath)) mappedObject
                  | Some opts \<Rightarrow> assign (setKey key (MVal (VStr newPath)) mappedObject) opts))
      | None \<Rightarrow>
          if includesValue visited v then
            mapPathsKeys n hv fields transformPath visited mappedObject
          else
            (case mapPaths n hv v transformPath visited of
               None \<Rightarrow> None
             | Some (mappedValue, visited') \<Rightarrow>
                 mapPathsKeys n hv fields transformPath visited'
                   (setKey key mappedValue mappedObject)))"

section \<open>Schemas (src/src/schemas.ts)\<close>

text \<open>
  The file holds two revisions of the module. The definitions follow the current one,
  the first in the file: it has \<^verbatim>\<open>propertyIsRequiredInSchema\<close>, and the registry's
  current revision calls it.

  A schema is a JSON object, and the traversals compare schema objects by identity
  (\<^verbatim>\<open>nodesTraversedInPath.includes(schema)\<close>) and one of them reverses an array of the
  schema in place. So schema objects live in a store: an address stands for the object,
  and the node at an address holds the keys the code reads. A child schema is an address.
  The keys are typed as the code uses them: \<^verbatim>\<open>$ref\<close>, \<^verbatim>\<open>type\<close>, \<^verbatim>\<open>entityType\<close>,
  \<^verbatim>\<open>storage\<close> and \<^verbatim>\<open>foreignKey\<close> are strings, \<^verbatim>\<open>properties\<close> is an object from names
  to schemas (a list of pairs in the order the keys are enumerated, each name once),
  \<^verbatim>\<open>allOf\<close> and \<^verbatim>\<open>oneOf\<close> are arrays of schemas, \<^verbatim>\<open>required\<close> is an array of strings
  and \<^verbatim>\<open>transient\<close> is a boolean. \<open>None\<close> is an absent key. Every child is an object;
  keys inherited from \<^verbatim>\<open>Object.prototype\<close> are not modelled.
\<close>

type_synonym addr = nat

record schema_node =
  ref :: "string option"
  type :: "string option"
  properties :: "(string \<times> addr) list option"
  items :: "addr option"
  allOf :: "addr list option"
  oneOf :: "addr list option"
  required :: "string list option"
  entityType :: "string option"
  storage :: "string option"
  foreignKey :: "string option"
  transient :: "bool option"

type_synonym store = "addr \<Rightarrow> schema_node"

text \<open>\<^verbatim>\<open>SchemaRefResolver = (schemaRef: string) => Schema | undefined\<close>\<close>

type_synonym resolver = "string \<Rightarrow> addr option"

datatype error = SchemaError string | TypeError

text \<open>A string key read in a condition: the empty string is falsy, like an absent key.\<close>

definition truthyStr :: "string option \<Rightarrow> string option" where
  "truthyStr v = (case v of None \<Rightarrow> None | Some s \<Rightarrow> if s = [] then None else Some s)"

definition emptySchema :: schema_node where
  "emptySchema =
     \<lparr>ref = None, type = None, properties = None, items = None, allOf = None, oneOf = None,
      required = None, entityType = None, storage = None, foreignKey = None,
      transient = None\<rparr>"

text \<open>
  \<^verbatim>\<open>_.get(schema, ['properties', key], null)\<close>: the key is turned into a string as
  lodash's \<^verbatim>\<open>toKey\<close> does, and a missing value gives \<^verbatim>\<open>null\<close>. A result of the property
  finder is a schema, \<^verbatim>\<open>null\<close> or \<^verbatim>\<open>undefined\<close>.
\<close>

datatype lookup = Found addr | JNull | JUndefined

definition getProperty :: "schema_node \<Rightarrow> segment \<Rightarrow> lookup" where
  "getProperty node key =
     (case properties node of
        None \<Rightarrow> JNull
      | Some ps \<Rightarrow> (case map_of ps (segToString key) of None \<Rightarrow> JNull | Some a \<Rightarrow> Found a))"

definition isInteger :: "segment \<Rightarrow> bool" where
  "isInteger e = (case e of Num (JInt i) \<Rightarrow> True | _ \<Rightarrow> False)"

subsection \<open>\<^verbatim>\<open>findPropertyInSchema\<close>\<close>

text \<open>
  The loop \<^verbatim>\<open>while (schemaOption && schemaOption.$ref)\<close>. It can run for ever (a chain
  of references that comes back), so it takes fuel: \<open>None\<close> is "no result within the
  fuel", \<open>Some None\<close> is \<^verbatim>\<open>undefined\<close>.
\<close>

fun resolveOption :: "nat \<Rightarrow> store \<Rightarrow> resolver \<Rightarrow> addr option \<Rightarrow> addr option option" where
  "resolveOption 0 h resolveSchemaRef schemaOption = None"
| "resolveOption (Suc n) h resolveSchemaRef None = Some None"
| "resolveOption (Suc n) h resolveSchemaRef (Some a) =
     (case truthyStr (ref (h a)) of
        None \<Rightarrow> Some (Some a)
      | Some s \<Rightarrow> resolveOption n h resolveSchemaRef (resolveSchemaRef s))"

text \<open>
  The function returns its result and the store it leaves: \<^verbatim>\<open>_.reverse(schema.allOf)\<close>
  reverses the array of the schema itself. The two \<^verbatim>\<open>for ... of\<close> loops read the array
  of the schema by index, as the array iterator does, from the store as it is then.
  \<open>findPropertyInOptions\<close> is the loop from index \<open>i\<close> on; its flag says whether the
  array is \<^verbatim>\<open>allOf\<close> or \<^verbatim>\<open>oneOf\<close>.
\<close>

fun findPropertyInSchema ::
    "nat \<Rightarrow> store \<Rightarrow> addr \<Rightarrow> property_path \<Rightarrow> resolver \<Rightarrow> (lookup \<times> store) option"
  and findPropertyInOptions ::
    "nat \<Rightarrow> store \<Rightarrow> addr \<Rightarrow> bool \<Rightarrow> nat \<Rightarrow> segment list \<Rightarrow> resolver \<Rightarrow> (lookup \<times> store) option"
where
  "findPropertyInSchema 0 h schema path resolveSchemaRef = None"
| "findPropertyInSchema (Suc n) h schema path resolveSchemaRef =
     (let pathArr = propertyPathToArray path in
      case truthyStr (ref (h schema)) of
        Some s \<Rightarrow>
          (case resolveSchemaRef s of
             None \<Rightarrow> Some (JUndefined, h)
           | Some referencedSchema \<Rightarrow>
               findPropertyInSchema n h referencedSchema (PathArr pathArr) resolveSchemaRef)
      | None \<Rightarrow>
          (case pathArr of
             [] \<Rightarrow> Some (Found schema, h)
           | first # rest \<Rightarrow>
               (case allOf (h schema) of
                  Some opts \<Rightarrow>
                    findPropertyInOptions n (h(schema := (h schema)\<lparr>allOf := Some (rev opts)\<rparr>))
                      schema True 0 pathArr resolveSchemaRef
                | None \<Rightarrow>
                    (case oneOf (h schema) of
                       Some opts \<Rightarrow> findPropertyInOptions n h schema False 0 pathArr resolveSchemaRef
                     | None \<Rightarrow>
                         if type (h schema) = Some ''object'' then
                           (case getProperty (h schema) first of
                              Found subschema \<Rightarrow>
                                if length pathArr = 1 then Some (Found subschema, h)
                                else findPropertyInSchema n h subschema (PathArr rest) resolveSchemaRef
                            | other \<Rightarrow> Some (other, h))
                         else if type (h schema) = Some ''array'' then
                           (if \<not> isInteger first then Some (JUndefined, h)
                            else case items (h schema) of
                                   None \<Rightarrow> Some (JUndefined, h)
                                 | Some subschema \<Rightarrow>
                                     findPropertyInSchema n h subschema (PathArr rest) resolveSchemaRef)
                         else Some (JUndefined, h)))))"
| "findPropertyInOptions 0 h schema isAllOf i pathArr resolveSchemaRef = None"
| "findPropertyInOptions (Suc n) h schema isAllOf i pathArr resolveSchemaRef =
     (case (if isAllOf then allOf (h schema) else oneOf (h schema)) of
        None \<Rightarrow> Some (JUndefined, h)
      | Some opts \<Rightarrow>
          if i < length opts then
            (case resolveOption n h resolveSchemaRef (Some (opts ! i)) of
               None \<Rightarrow> None
             | Some None \<Rightarrow> findPropertyInOptions n h schema isAllOf (Suc i) pathArr resolveSchemaRef
             | Some (Some schemaOption) \<Rightarrow>
                 (case findPropertyInSchema n h schemaOption (PathArr pathArr) resolveSchemaRef of
                    None \<Rightarrow> None
                  | Some (Found result, h') \<Rightarrow> Some (Found result, h')
                  | Some (other, h') \<Rightarrow>
                      findPropertyInOptions n h' schema isAllOf (Suc i) pathArr resolveSchemaRef))
          else Some (JUndefined, h))"

subsection \<open>\<^verbatim>\<open>findRelationshipsInSchema\<close>\<close>

record relationship =
  path :: string
  toMany :: bool
  storageClass :: string
  entityTypeName :: "string option"
  schemaRef :: "string option"
  relationshipSchema :: addr
  foreignKeyPath :: "string option"
  depthFromParent :: int

text \<open>
  \<^verbatim>\<open>relationshipProperties\<close> is an object literal of four keys. A key of an object is
  missing, or held with a value that may be \<^verbatim>\<open>undefined\<close>; the spread
  \<^verbatim>\<open>{..., ...relationshipProperties}\<close> copies every held key, also one that holds
  \<^verbatim>\<open>undefined\<close>.
\<close>

datatype jsfield = Missing | Held "string option"

definition fieldValue :: "jsfield \<Rightarrow> string option" where
  "fieldValue f = (case f of Missing \<Rightarrow> None | Held v \<Rightarrow> v)"

definition spreadField :: "jsfield \<Rightarrow> jsfield \<Rightarrow> jsfield" where
  "spreadField base over = (case over of Missing \<Rightarrow> base | Held v \<Rightarrow> Held v)"

record relationshipProps =
  rpEntityTypeName :: jsfield
  rpForeignKeyPath :: jsfield
  rpSchemaRef :: jsfield
  rpStorage :: jsfield

definition propsOfNode :: "schema_node \<Rightarrow> relationshipProps" where
  "propsOfNode node =
     \<lparr>rpEntityTypeName = Held (entityType node), rpForeignKeyPath = Held (foreignKey node),
      rpSchemaRef = Held (ref node), rpStorage = Held (storage node)\<rparr>"

definition spreadProps :: "relationshipProps \<Rightarrow> relationshipProps \<Rightarrow> relationshipProps" where
  "spreadProps base over =
     \<lparr>rpEntityTypeName = spreadField (rpEntityTypeName base) (rpEntityTypeName over),
      rpForeignKeyPath = spreadField (rpForeignKeyPath base) (rpForeignKeyPath over),
      rpSchemaRef = spreadField (rpSchemaRef base) (rpSchemaRef over),
      rpStorage = spreadField (rpStorage base) (rpStorage over)\<rparr>"

text \<open>
  The loop \<^verbatim>\<open>while (schema.$ref)\<close>: \<open>Some None\<close> is the \<^verbatim>\<open>return []\<close> of an unresolved
  reference, \<open>Some (Some (schema, props))\<close> the schema and the relationship properties
  the loop ends with, \<open>None\<close> no end within the fuel.
\<close>

fun followRefs ::
    "nat \<Rightarrow> store \<Rightarrow> resolver \<Rightarrow> addr \<Rightarrow> relationshipProps
      \<Rightarrow> (addr \<times> relationshipProps) option option" where
  "followRefs 0 h resolveSchemaRef schema relationshipProperties = None"
| "followRefs (Suc n) h resolveSchemaRef schema relationshipProperties =
     (case truthyStr (ref (h schema)) of
        None \<Rightarrow> Some (Some (schema, relationshipProperties))
      | Some s \<Rightarrow>
          (case resolveSchemaRef s of
             None \<Rightarrow> Some None
           | Some referencedSchema \<Rightarrow>
               followRefs n h resolveSchemaRef referencedSchema
                 (spreadProps (propsOfNode (h referencedSchema)) relationshipProperties)))"

text \<open>
  The check "is the current node a relationship": the list of the relationship it adds
  (none or one), or the error thrown for \<^verbatim>\<open>inverse-ref\<close> without a foreign key, a
  \<^verbatim>\<open>SchemaError\<close> with the message below.
\<close>

definition missingForeignKey :: string where
  "missingForeignKey = ''Missing foreign key path in relationship with storage type inverse-ref''"

definition ownRelationship ::
    "relationshipProps \<Rightarrow> string list option \<Rightarrow> segment list \<Rightarrow> addr \<Rightarrow> int
      \<Rightarrow> error + relationship list" where
  "ownRelationship relationshipProperties allowedStorage currentPathArr schema dfp =
     (case truthyStr (fieldValue (rpStorage relationshipProperties)) of
        None \<Rightarrow> Inr []
      | Some st \<Rightarrow>
          if (case allowedStorage of None \<Rightarrow> True | Some allowed \<Rightarrow> st \<in> set allowed) then
            (let relationship =
               \<lparr>path = propertyPathToDottedPath (PathArr currentPathArr), toMany = False,
                storageClass = st,
                entityTypeName = fieldValue (rpEntityTypeName relationshipProperties),
                schemaRef = fieldValue (rpSchemaRef relationshipProperties),
                relationshipSchema = schema, foreignKeyPath = None, depthFromParent = dfp\<rparr>
             in if st = ''inverse-ref'' then
                  (case truthyStr (fieldValue (rpForeignKeyPath relationshipProperties)) of
                     None \<Rightarrow> Inl (SchemaError missingForeignKey)
                   | Some fk \<Rightarrow> Inr [relationship\<lparr>foreignKeyPath := Some fk\<rparr>])
                else Inr [relationship])
          else Inr [])"

definition relationshipIsReference :: "relationshipProps \<Rightarrow> bool" where
  "relationshipIsReference relationshipProperties =
     (case truthyStr (fieldValue (rpStorage relationshipProperties)) of
        None \<Rightarrow> False
      | Some st \<Rightarrow> st \<in> set [''ref'', ''inverse-ref''])"

text \<open>
  \<^verbatim>\<open>limitToPath ? propertyPathToArray(limitToPath) : undefined\<close>: the empty string is
  falsy, an array (the empty one too) is truthy.
\<close>

definition limitArr :: "property_path option \<Rightarrow> segment list option" where
  "limitArr limitToPath =
     (case limitToPath of
        None \<Rightarrow> None
      | Some (PathStr s) \<Rightarrow> if s = [] then None else Some (dottedPathToArray s)
      | Some (PathArr a) \<Rightarrow> Some a)"

text \<open>
  \<^verbatim>\<open>propertiesToTraverse\<close>, each name with its schema \<^verbatim>\<open>propertySchemas[property]\<close>.
\<close>

definition propertiesToTraverse ::
    "schema_node \<Rightarrow> segment list option \<Rightarrow> (string \<times> addr) list" where
  "propertiesToTraverse node limitToPathArr =
     (let propertySchemas = (case properties node of None \<Rightarrow> [] | Some ps \<Rightarrow> ps) in
      case limitToPathArr of
        None \<Rightarrow> propertySchemas
      | Some [] \<Rightarrow> []
      | Some (Num v # rest) \<Rightarrow> []
      | Some (Key propertyToTraverse # rest) \<Rightarrow>
          (case map_of propertySchemas propertyToTraverse of
             None \<Rightarrow> []
           | Some subschema \<Rightarrow> [(propertyToTraverse, subschema)]))"

text \<open>
  The calls of a loop run one after the other, and
  \<^verbatim>\<open>relationships = relationships.concat(...)\<close> appends what each returns: the first
  call that throws or has no result within the fuel decides the whole.
\<close>

fun concatResults :: "(error + 'a list) option list \<Rightarrow> (error + 'a list) option" where
  "concatResults [] = Some (Inr [])"
| "concatResults (None # rs) = None"
| "concatResults (Some (Inl e) # rs) = Some (Inl e)"
| "concatResults (Some (Inr xs) # rs) =
     (case concatResults rs of
        None \<Rightarrow> None
      | Some (Inl e) \<Rightarrow> Some (Inl e)
      | Some (Inr ys) \<Rightarrow> Some (Inr (xs @ ys)))"

definition schemaOptions :: "schema_node \<Rightarrow> addr list option" where
  "schemaOptions node = (case allOf node of Some opts \<Rightarrow> Some opts | None \<Rightarrow> oneOf node)"

text \<open>
  \<open>depthExceeded\<close> is \<^verbatim>\<open>maxDepth != undefined && pathDepth(currentPathArr) > maxDepth\<close>.
\<close>

definition depthExceeded :: "int option \<Rightarrow> segment list \<Rightarrow> bool" where
  "depthExceeded maxDepth currentPathArr =
     (case maxDepth of None \<Rightarrow> False | Some d \<Rightarrow> int (pathDepth (PathArr currentPathArr)) > d)"

fun findRelationshipsInSchema ::
    "nat \<Rightarrow> store \<Rightarrow> addr \<Rightarrow> resolver \<Rightarrow> string list option \<Rightarrow> property_path option
      \<Rightarrow> int option \<Rightarrow> property_path \<Rightarrow> addr list \<Rightarrow> int
      \<Rightarrow> (error + relationship list) option" where
  "findRelationshipsInSchema 0 h schema0 resolveSchemaRef allowedStorage limitToPath maxDepth
     currentPath nodesTraversedInPath dfp = None"
| "findRelationshipsInSchema (Suc n) h schema0 resolveSchemaRef allowedStorage limitToPath maxDepth
     currentPath nodesTraversedInPath dfp =
     (let currentPathArr = propertyPathToArray currentPath;
          limitToPathArr = limitArr limitToPath
      in case followRefs n h resolveSchemaRef schema0 (propsOfNode (h schema0)) of
           None \<Rightarrow> None
         | Some None \<Rightarrow> Some (Inr [])
         | Some (Some (schema, relationshipProperties)) \<Rightarrow>
             (case ownRelationship relationshipProperties allowedStorage currentPathArr schema dfp of
                Inl e \<Rightarrow> Some (Inl e)
              | Inr relationships \<Rightarrow>
                  if maxDepth = None \<and> schema \<in> set nodesTraversedInPath then Some (Inr [])
                  else if depthExceeded maxDepth currentPathArr then Some (Inr [])
                  else
                    (case schemaOptions (h schema) of
                       Some opts \<Rightarrow>
                         concatResults (Some (Inr relationships)
                           # map (\<lambda>schemaOption.
                               findRelationshipsInSchema n h schemaOption resolveSchemaRef
                                 allowedStorage (map_option PathArr limitToPathArr) maxDepth
                                 (PathArr currentPathArr) (nodesTraversedInPath @ [schema]) dfp)
                             opts)
                     | None \<Rightarrow>
                         if type (h schema) = Some ''object'' then
                           concatResults (Some (Inr relationships)
                             # map (\<lambda>(property, subschema).
                                 findRelationshipsInSchema n h subschema resolveSchemaRef
                                   allowedStorage
                                   (map_option (\<lambda>l. PathArr (drop 1 l)) limitToPathArr) maxDepth
                                   (PathArr (currentPathArr @ [Key property]))
                                   (nodesTraversedInPath @ [schema])
                                   (if relationshipIsReference relationshipProperties then 0
                                    else dfp + 1))
                               (propertiesToTraverse (h schema) limitToPathArr))
                         else if type (h schema) = Some ''array'' then
                           (if limitToPathArr = Some [] then Some (Inr relationships)
                            else case items (h schema) of
                                   None \<Rightarrow> Some (Inr relationships)
                                 | Some itemsSchema \<Rightarrow>
                                     concatResults
                                       [Some (Inr relationships),
                                        findRelationshipsInSchema n h itemsSchema resolveSchemaRef
                                          allowedStorage
                                          (map_option (\<lambda>l. PathArr (drop 1 l)) limitToPathArr)
                                          maxDepth
                                          (PathArr (currentPathArr @ [Num (JInt (- 1))]))
                                          (nodesTraversedInPath @ [schema]) (dfp + 1)])
                         else Some (Inr relationships))))"

subsection \<open>\<^verbatim>\<open>findTransientPropertiesInSchema\<close>\<close>

text \<open>
  The reference loop of this function keeps the local variable \<^verbatim>\<open>transient\<close>: the flag
  of the node the call started at, or, where that is \<^verbatim>\<open>undefined\<close>, of the first
  referenced schema that has one.
\<close>

fun followRefsTransient ::
    "nat \<Rightarrow> store \<Rightarrow> resolver \<Rightarrow> addr \<Rightarrow> bool option \<Rightarrow> (addr \<times> bool option) option option"
where
  "followRefsTransient 0 h resolveSchemaRef schema transientVar = None"
| "followRefsTransient (Suc n) h resolveSchemaRef schema transientVar =
     (case truthyStr (ref (h schema)) of
        None \<Rightarrow> Some (Some (schema, transientVar))
      | Some s \<Rightarrow>
          (case resolveSchemaRef s of
             None \<Rightarrow> Some None
           | Some referencedSchema \<Rightarrow>
               followRefsTransient n h resolveSchemaRef referencedSchema
                 (if transientVar = None then transient (h referencedSchema) else transientVar)))"

fun concatPaths :: "'a list option list \<Rightarrow> 'a list option" where
  "concatPaths [] = Some []"
| "concatPaths (None # rs) = None"
| "concatPaths (Some xs # rs) =
     (case concatPaths rs of None \<Rightarrow> None | Some ys \<Rightarrow> Some (xs @ ys))"

text \<open>
  After the loop the code tests \<^verbatim>\<open>schema.transient\<close>, the flag of the schema the loop
  ended at; the variable \<^verbatim>\<open>transient\<close> is not read again.
\<close>

fun findTransientPropertiesInSchema ::
    "nat \<Rightarrow> store \<Rightarrow> addr \<Rightarrow> resolver \<Rightarrow> property_path option \<Rightarrow> int option
      \<Rightarrow> property_path \<Rightarrow> addr list \<Rightarrow> string list option" where
  "findTransientPropertiesInSchema 0 h schema0 resolveSchemaRef limitToPath maxDepth
     currentPath nodesTraversedInPath = None"
| "findTransientPropertiesInSchema (Suc n) h schema0 resolveSchemaRef limitToPath maxDepth
     currentPath nodesTraversedInPath =
     (let currentPathArr = propertyPathToArray currentPath;
          limitToPathArr = limitArr limitToPath
      in case followRefsTransient n h resolveSchemaRef schema0 (transient (h schema0)) of
           None \<Rightarrow> None
         | Some None \<Rightarrow> Some []
         | Some (Some (schema, transientVar)) \<Rightarrow>
             if maxDepth = None \<and> schema \<in> set nodesTraversedInPath then Some []
             else if depthExceeded maxDepth currentPathArr then Some []
             else
               (let transientPropertyPaths =
                      (if pathDepth (PathArr currentPathArr) = 0 then []
                       else if transient (h schema) = Some True
                         then [propertyPathToDottedPath (PathArr currentPathArr)]
                       else [])
                in case schemaOptions (h schema) of
                     Some opts \<Rightarrow>
                       concatPaths (Some transientPropertyPaths
                         # map (\<lambda>schemaOption.
                             findTransientPropertiesInSchema n h schemaOption resolveSchemaRef
                               (map_option PathArr limitToPathArr) maxDepth
                               (PathArr currentPathArr) (nodesTraversedInPath @ [schema]))
                           opts)
                   | None \<Rightarrow>
                       if type (h schema) = Some ''object'' then
                         concatPaths (Some transientPropertyPaths
                           # map (\<lambda>(property, subschema).
                               findTransientPropertiesInSchema n h subschema resolveSchemaRef
                                 (map_option (\<lambda>l. PathArr (drop 1 l)) limitToPathArr) maxDepth
                                 (PathArr (currentPathArr @ [Key property]))
                                 (nodesTraversedInPath @ [schema]))
                             (propertiesToTraverse (h schema) limitToPathArr))
                       else if type (h schema) = Some ''array'' then
                         (if limitToPathArr = Some [] then Some transientPropertyPaths
                          else case items (h schema) of
                                 None \<Rightarrow> Some transientPropertyPaths
                               | Some itemsSchema \<Rightarrow>
                                   concatPaths
                                     [Some transientPropertyPaths,
                                      findTransientPropertiesInSchema n h itemsSchema
                                        resolveSchemaRef
                                        (map_option (\<lambda>l. PathArr (drop 1 l)) limitToPathArr)
                                        maxDepth
                                        (PathArr (currentPathArr @ [Num (JInt (- 1))]))
                                        (nodesTraversedInPath @ [schema])])
                       else Some transientPropertyPaths))"

subsection \<open>\<^verbatim>\<open>propertyIsRequiredInSchema\<close>\<close>

text \<open>
  The function returns \<^verbatim>\<open>true\<close> or \<^verbatim>\<open>false\<close>, or ends without a \<^verbatim>\<open>return\<close>, which
  gives \<^verbatim>\<open>undefined\<close>.
\<close>

datatype required_result = ReqTrue | ReqFalse | ReqUndefined

text \<open>
  The loop over the schema options: the first option whose call returns \<^verbatim>\<open>true\<close> ends
  the function with \<^verbatim>\<open>true\<close>; when none does the loop ends and nothing is returned.
\<close>

fun anyOptionRequires :: "required_result option list \<Rightarrow> required_result option" where
  "anyOptionRequires [] = Some ReqUndefined"
| "anyOptionRequires (None # rs) = None"
| "anyOptionRequires (Some r # rs) = (if r = ReqTrue then Some ReqTrue else anyOptionRequires rs)"

text \<open>
  \<^verbatim>\<open>schema.required || []\<close>. Its \<^verbatim>\<open>includes(pathArr[0])\<close> is false when \<^verbatim>\<open>pathArr[0]\<close>
  is \<^verbatim>\<open>undefined\<close> (an empty path) or a number, since the array holds strings.
\<close>

definition requiredNames :: "schema_node \<Rightarrow> string list" where
  "requiredNames node = (case required node of None \<Rightarrow> [] | Some names \<Rightarrow> names)"

fun propertyIsRequiredInSchema ::
    "nat \<Rightarrow> store \<Rightarrow> addr \<Rightarrow> property_path \<Rightarrow> resolver \<Rightarrow> required_result option" where
  "propertyIsRequiredInSchema 0 h schema p resolveSchemaRef = None"
| "propertyIsRequiredInSchema (Suc n) h schema p resolveSchemaRef =
     (let pathArr = propertyPathToArray p in
      case truthyStr (ref (h schema)) of
        Some s \<Rightarrow>
          (case resolveSchemaRef s of
             None \<Rightarrow> Some ReqFalse
           | Some referencedSchema \<Rightarrow>
               propertyIsRequiredInSchema n h referencedSchema (PathArr pathArr) resolveSchemaRef)
      | None \<Rightarrow>
          (case schemaOptions (h schema) of
             Some opts \<Rightarrow>
               anyOptionRequires
                 (map (\<lambda>schemaOption.
                    propertyIsRequiredInSchema n h schemaOption p resolveSchemaRef) opts)
           | None \<Rightarrow>
               if type (h schema) = Some ''object'' then
                 (case pathArr of
                    Key k # rest \<Rightarrow>
                      if k \<notin> set (requiredNames (h schema)) then Some ReqFalse
                      else (case getProperty (h schema) (Key k) of
                              Found subschema \<Rightarrow>
                                if length pathArr = 1 then Some ReqTrue
                                else propertyIsRequiredInSchema n h subschema (PathArr rest)
                                       resolveSchemaRef
                            | other \<Rightarrow> Some ReqTrue)
                  | other \<Rightarrow> Some ReqFalse)
               else if type (h schema) = Some ''array'' then
                 (if length pathArr = 1 then Some ReqFalse else Some ReqTrue)
               else Some ReqTrue))"

subsection \<open>The earlier revision\<close>

text \<open>
  The second revision in the file differs in three functions. Its relationship finder
  and its transient-property finder follow one reference only
  (\<^verbatim>\<open>if (schema.$ref)\<close>), and the relationship finder adds the relationship of a node
  inside \<^verbatim>\<open>case 'object'\<close>, after the two depth checks. Its property finder looks at
  \<^verbatim>\<open>allOf\<close> and \<^verbatim>\<open>oneOf\<close> before \<^verbatim>\<open>$ref\<close>, does not resolve the references of the
  alternatives, returns from the first \<^verbatim>\<open>allOf\<close> alternative of type \<^verbatim>\<open>object\<close>, and
  calls itself on a property that may be \<^verbatim>\<open>undefined\<close>, which throws a \<^verbatim>\<open>TypeError\<close>.
\<close>

text \<open>
  The one step \<^verbatim>\<open>if (schema.$ref)\<close> of the earlier revision: \<open>None\<close> is the
  \<^verbatim>\<open>return []\<close> of an unresolved reference.
\<close>

definition followRefOnce ::
    "store \<Rightarrow> resolver \<Rightarrow> addr \<Rightarrow> relationshipProps \<Rightarrow> (addr \<times> relationshipProps) option" where
  "followRefOnce h resolveSchemaRef schema relationshipProperties =
     (case truthyStr (ref (h schema)) of
        None \<Rightarrow> Some (schema, relationshipProperties)
      | Some s \<Rightarrow>
          (case resolveSchemaRef s of
             None \<Rightarrow> None
           | Some referencedSchema \<Rightarrow>
               Some (referencedSchema,
                 spreadProps (propsOfNode (h referencedSchema)) relationshipProperties)))"

fun findRelationshipsInSchemaEarlier ::
    "nat \<Rightarrow> store \<Rightarrow> addr \<Rightarrow> resolver \<Rightarrow> string list option \<Rightarrow> property_path option
      \<Rightarrow> int option \<Rightarrow> property_path \<Rightarrow> addr list \<Rightarrow> int
      \<Rightarrow> (error + relationship list) option" where
  "findRelationshipsInSchemaEarlier 0 h schema0 resolveSchemaRef allowedStorage limitToPath
     maxDepth currentPath nodesTraversedInPath dfp = None"
| "findRelationshipsInSchemaEarlier (Suc n) h schema0 resolveSchemaRef allowedStorage limitToPath
     maxDepth currentPath nodesTraversedInPath dfp =
     (let currentPathArr = propertyPathToArray currentPath;
          limitToPathArr = limitArr limitToPath
      in case followRefOnce h resolveSchemaRef schema0 (propsOfNode (h schema0)) of
           None \<Rightarrow> Some (Inr [])
         | Some (schema, relationshipProperties) \<Rightarrow>
             if maxDepth = None \<and> schema \<in> set nodesTraversedInPath then Some (Inr [])
             else if depthExceeded maxDepth currentPathArr then Some (Inr [])
             else
               (case schemaOptions (h schema) of
                  Some opts \<Rightarrow>
                    concatResults
                      (map (\<lambda>schemaOption.
                          findRelationshipsInSchemaEarlier n h schemaOption resolveSchemaRef
                            allowedStorage (map_option PathArr limitToPathArr) maxDepth
                            (PathArr currentPathArr) (nodesTraversedInPath @ [schema]) dfp)
                        opts)
                | None \<Rightarrow>
                    if type (h schema) = Some ''object'' then
                      (case ownRelationship relationshipProperties allowedStorage currentPathArr
                              schema dfp of
                         Inl e \<Rightarrow> Some (Inl e)
                       | Inr relationships \<Rightarrow>
                           concatResults (Some (Inr relationships)
                             # map (\<lambda>(property, subschema).
                                 findRelationshipsInSchemaEarlier n h subschema resolveSchemaRef
                                   allowedStorage
                                   (map_option (\<lambda>l. PathArr (drop 1 l)) limitToPathArr) maxDepth
                                   (PathArr (currentPathArr @ [Key property]))
                                   (nodesTraversedInPath @ [schema])
                                   (if relationshipIsReference relationshipProperties then 0
                                    else dfp + 1))
                               (propertiesToTraverse (h schema) limitToPathArr)))
                    else if type (h schema) = Some ''array'' then
                      (if limitToPathArr = Some [] then Some (Inr [])
                       else case items (h schema) of
                              None \<Rightarrow> Some (Inr [])
                            | Some itemsSchema \<Rightarrow>
                                findRelationshipsInSchemaEarlier n h itemsSchema resolveSchemaRef
                                  allowedStorage
                                  (map_option (\<lambda>l. PathArr (drop 1 l)) limitToPathArr) maxDepth
                                  (PathArr (currentPathArr @ [Num (JInt (- 1))]))
                                  (nodesTraversedInPath @ [schema]) (dfp + 1))
                    else Some (Inr [])))"

definition followRefOnceTransient ::
    "store \<Rightarrow> resolver \<Rightarrow> addr \<Rightarrow> bool option \<Rightarrow> (addr \<times> bool option) option" where
  "followRefOnceTransient h resolveSchemaRef schema transientVar =
     (case truthyStr (ref (h schema)) of
        None \<Rightarrow> Some (schema, transientVar)
      | Some s \<Rightarrow>
          (case resolveSchemaRef s of
             None \<Rightarrow> None
           | Some referencedSchema \<Rightarrow>
               Some (referencedSchema,
                 if transientVar = None then transient (h referencedSchema) else transientVar)))"

fun findTransientPropertiesInSchemaEarlier ::
    "nat \<Rightarrow> store \<Rightarrow> addr \<Rightarrow> resolver \<Rightarrow> property_path option \<Rightarrow> int option
      \<Rightarrow> property_path \<Rightarrow> addr list \<Rightarrow> string list option" where
  "findTransientPropertiesInSchemaEarlier 0 h schema0 resolveSchemaRef limitToPath maxDepth
     currentPath nodesTraversedInPath = None"
| "findTransientPropertiesInSchemaEarlier (Suc n) h schema0 resolveSchemaRef limitToPath maxDepth
     currentPath nodesTraversedInPath =
     (let currentPathArr = propertyPathToArray currentPath;
          limitToPathArr = limitArr limitToPath
      in case followRefOnceTransient h resolveSchemaRef schema0 (transient (h schema0)) of
           None \<Rightarrow> Some []
         | Some (schema, transientVar) \<Rightarrow>
             if maxDepth = None \<and> schema \<in> set nodesTraversedInPath then Some []
             else if depthExceeded maxDepth currentPathArr then Some []
             else
               (let transientPropertyPaths =
                      (if pathDepth (PathArr currentPathArr) = 0 then []
                       else if transient (h schema) = Some True
                         then [propertyPathToDottedPath (PathArr currentPathArr)]
                       else [])
                in case schemaOptions (h schema) of
                     Some opts \<Rightarrow>
                       concatPaths (Some transientPropertyPaths
                         # map (\<lambda>schemaOption.
                             findTransientPropertiesInSchemaEarlier n h schemaOption
                               resolveSchemaRef (map_option PathArr limitToPathArr) maxDepth
                               (PathArr currentPathArr) (nodesTraversedInPath @ [schema]))
                           opts)
                   | None \<Rightarrow>
                       if type (h schema) = Some ''object'' then
                         concatPaths (Some transientPropertyPaths
                           # map (\<lambda>(property, subschema).
                               findTransientPropertiesInSchemaEarlier n h subschema
                                 resolveSchemaRef
                                 (map_option (\<lambda>l. PathArr (drop 1 l)) limitToPathArr) maxDepth
                                 (PathArr (currentPathArr @ [Key property]))
                                 (nodesTraversedInPath @ [schema]))
                             (propertiesToTraverse (h schema) limitToPathArr))
                       else if type (h schema) = Some ''array'' then
                         (if limitToPathArr = Some [] then Some transientPropertyPaths
                          else case items (h schema) of
                                 None \<Rightarrow> Some transientPropertyPaths
                               | Some itemsSchema \<Rightarrow>
                                   concatPaths
                                     [Some transientPropertyPaths,
                                      findTransientPropertiesInSchemaEarlier n h itemsSchema
                                        resolveSchemaRef
                                        (map_option (\<lambda>l. PathArr (drop 1 l)) limitToPathArr)
                                        maxDepth
                                        (PathArr (currentPathArr @ [Num (JInt (- 1))]))
                                        (nodesTraversedInPath @ [schema])])
                       else Some transientPropertyPaths))"

text \<open>
  \<^verbatim>\<open>path[0]\<close> as a property key, and \<^verbatim>\<open>path.length\<close>, of a path that is a string or an
  array: the earlier revision reads them from \<^verbatim>\<open>path\<close> itself, not from \<^verbatim>\<open>pathArr\<close>. Of
  a string \<^verbatim>\<open>path[0]\<close> is its first character; of an empty path it is \<^verbatim>\<open>undefined\<close>,
  the key \<^verbatim>\<open>'undefined'\<close>.
\<close>

definition pathFirstKey :: "property_path \<Rightarrow> string" where
  "pathFirstKey p =
     (case p of
        PathStr [] \<Rightarrow> ''undefined''
      | PathStr (c # cs) \<Rightarrow> [c]
      | PathArr [] \<Rightarrow> ''undefined''
      | PathArr (e # es) \<Rightarrow> segToString e)"

definition pathLength :: "property_path \<Rightarrow> nat" where
  "pathLength p = (case p of PathStr s \<Rightarrow> length s | PathArr a \<Rightarrow> length a)"

text \<open>\<^verbatim>\<open>schemaOption?.properties?.[key]\<close>: a schema or \<^verbatim>\<open>undefined\<close>.\<close>

definition optionalProperty :: "schema_node \<Rightarrow> string \<Rightarrow> addr option" where
  "optionalProperty node key = (case properties node of None \<Rightarrow> None | Some ps \<Rightarrow> map_of ps key)"

fun findPropertyInSchemaEarlier ::
    "nat \<Rightarrow> store \<Rightarrow> addr \<Rightarrow> property_path \<Rightarrow> resolver \<Rightarrow> ((error + lookup) \<times> store) option"
  and findPropertyInOneOfEarlier ::
    "nat \<Rightarrow> store \<Rightarrow> addr list \<Rightarrow> segment list \<Rightarrow> resolver \<Rightarrow> ((error + lookup) \<times> store) option"
where
  "findPropertyInSchemaEarlier 0 h schema p resolveSchemaRef = None"
| "findPropertyInSchemaEarlier (Suc n) h schema p resolveSchemaRef =
     (let pathArr = propertyPathToArray p in
      case allOf (h schema) of
        Some opts \<Rightarrow>
          (let h' = h(schema := (h schema)\<lparr>allOf := Some (rev opts)\<rparr>) in
           case List.find (\<lambda>schemaOption. type (h' schemaOption) = Some ''object'') (rev opts) of
             None \<Rightarrow> Some (Inr JUndefined, h')
           | Some schemaOption \<Rightarrow>
               (case optionalProperty (h' schemaOption) (pathFirstKey p) of
                  None \<Rightarrow>
                    if pathLength p = 1 then Some (Inr JUndefined, h') else Some (Inl TypeError, h')
                | Some subschema \<Rightarrow>
                    if pathLength p = 1 then Some (Inr (Found subschema), h')
                    else findPropertyInSchemaEarlier n h' subschema (PathArr (drop 1 pathArr))
                           resolveSchemaRef))
      | None \<Rightarrow>
          (case oneOf (h schema) of
             Some opts \<Rightarrow> findPropertyInOneOfEarlier n h opts pathArr resolveSchemaRef
           | None \<Rightarrow>
               (case truthyStr (ref (h schema)) of
                  Some s \<Rightarrow>
                    (case resolveSchemaRef s of
                       None \<Rightarrow> Some (Inr JUndefined, h)
                     | Some referencedSchema \<Rightarrow>
                         findPropertyInSchemaEarlier n h referencedSchema p resolveSchemaRef)
                | None \<Rightarrow>
                    if type (h schema) = Some ''object'' then
                      (case optionalProperty (h schema) (pathFirstKey p) of
                         None \<Rightarrow> Some (Inr JNull, h)
                       | Some subschema \<Rightarrow>
                           if pathLength p = 1 then Some (Inr (Found subschema), h)
                           else findPropertyInSchemaEarlier n h subschema
                                  (PathArr (drop 1 pathArr)) resolveSchemaRef)
                    else if type (h schema) = Some ''array'' then
                      (case items (h schema) of
                         None \<Rightarrow> Some (Inr JUndefined, h)
                       | Some subschema \<Rightarrow>
                           findPropertyInSchemaEarlier n h subschema (PathArr (drop 1 pathArr))
                             resolveSchemaRef)
                    else Some (Inr JUndefined, h))))"
| "findPropertyInOneOfEarlier 0 h opts pathArr resolveSchemaRef = None"
| "findPropertyInOneOfEarlier (Suc n) h [] pathArr resolveSchemaRef = Some (Inr JUndefined, h)"
| "findPropertyInOneOfEarlier (Suc n) h (schemaOption # opts) pathArr resolveSchemaRef =
     (if type (h schemaOption) \<noteq> Some ''object'' then
        findPropertyInOneOfEarlier n h opts pathArr resolveSchemaRef
      else
        (case findPropertyInSchemaEarlier n h schemaOption (PathArr pathArr) resolveSchemaRef of
           None \<Rightarrow> None
         | Some (Inl e, h') \<Rightarrow> Some (Inl e, h')
         | Some (Inr (Found result), h') \<Rightarrow> Some (Inr (Found result), h')
         | Some (Inr other, h') \<Rightarrow> findPropertyInOneOfEarlier n h' opts pathArr resolveSchemaRef))"

section \<open>The registry (src/src/registry.ts)\<close>

text \<open>
  \<^verbatim>\<open>SchemaRegistry\<close> holds the dictionary \<^verbatim>\<open>schemas\<close> from schema ids to schemas and the
  \<^verbatim>\<open>schemaRefTranslator\<close>. Its methods call the functions above with
  \<^verbatim>\<open>this.resolveSchemaRef.bind(this)\<close> as the resolver and the default values of the
  remaining parameters; there is no \<^verbatim>\<open>try\<close> in them.
\<close>

record registry =
  schemas :: "string \<Rightarrow> addr option"
  schemaRefTranslator :: "string \<Rightarrow> string"

definition getSchema :: "registry \<Rightarrow> string \<Rightarrow> addr option" where
  "getSchema reg schemaId = schemas reg schemaId"

definition resolveSchemaRef :: "registry \<Rightarrow> resolver" where
  "resolveSchemaRef reg r = getSchema reg (schemaRefTranslator reg r)"

definition registryFindPropertyInSchema ::
    "registry \<Rightarrow> nat \<Rightarrow> store \<Rightarrow> addr \<Rightarrow> property_path \<Rightarrow> (lookup \<times> store) option" where
  "registryFindPropertyInSchema reg n h schema p =
     findPropertyInSchema n h schema p (resolveSchemaRef reg)"

definition registryFindRelationshipsInSchema ::
    "registry \<Rightarrow> nat \<Rightarrow> store \<Rightarrow> addr \<Rightarrow> string list option \<Rightarrow> property_path option
      \<Rightarrow> int option \<Rightarrow> (error + relationship list) option" where
  "registryFindRelationshipsInSchema reg n h schema allowedStorage limitToPath maxDepth =
     findRelationshipsInSchema n h schema (resolveSchemaRef reg) allowedStorage limitToPath
       maxDepth (PathArr []) [] 0"

definition registryFindTransientPropertiesInSchema ::
    "registry \<Rightarrow> nat \<Rightarrow> store \<Rightarrow> addr \<Rightarrow> property_path option \<Rightarrow> int option
      \<Rightarrow> string list option" where
  "registryFindTransientPropertiesInSchema reg n h schema limitToPath maxDepth =
     findTransientPropertiesInSchema n h schema (resolveSchemaRef reg) limitToPath maxDepth
       (PathArr []) []"

definition registryPropertyIsRequiredInSchema ::
    "registry \<Rightarrow> nat \<Rightarrow> store \<Rightarrow> addr \<Rightarrow> property_path \<Rightarrow> required_result option" where
  "registryPropertyIsRequiredInSchema reg n h schema p =
     propertyIsRequiredInSchema n h schema p (resolveSchemaRef reg)"

section \<open>Example schemas\<close>

text \<open>
  The example of the relationship finder:
  \<^verbatim>\<open>Person = {type: 'object', properties: {name: {type: 'string'}, manager: {$ref:
  '#Person', storage: 'ref', entityType: 'Person'}}}\<close>, with \<^verbatim>\<open>#Person\<close> resolved to
  \<^verbatim>\<open>Person\<close> itself. \<^verbatim>\<open>Person\<close> is at address 10, \<^verbatim>\<open>name\<close> at 11, \<^verbatim>\<open>manager\<close> at 12.
\<close>

definition personStore :: store where
  "personStore =
     (\<lambda>a. emptySchema)
       (10 := emptySchema\<lparr>type := Some ''object'',
                properties := Some [(''name'', 11), (''manager'', 12)]\<rparr>,
        11 := emptySchema\<lparr>type := Some ''string''\<rparr>,
        12 := emptySchema\<lparr>ref := Some ''#Person'', storage := Some ''ref'',
                entityType := Some ''Person''\<rparr>)"

definition personResolver :: resolver where
  "personResolver r = (if r = ''#Person'' then Some 10 else None)"

definition managerRelationship :: "string \<Rightarrow> int \<Rightarrow> relationship" where
  "managerRelationship p d =
     \<lparr>path = p, toMany = False, storageClass = ''ref'', entityTypeName = Some ''Person'',
      schemaRef = Some ''#Person'', relationshipSchema = 10, foreignKeyPath = None,
      depthFromParent = d\<rparr>"

text \<open>
  The cycle \<^verbatim>\<open>A = {type: 'object', properties: {b: {$ref: 'B'}}}\<close> (address 20, its
  property at 21) and \<^verbatim>\<open>B = {type: 'object', properties: {a: {$ref: 'A'}}}\<close> (address
  22, its property at 23); the resolver returns the two schemas themselves.
\<close>

definition cycleStore :: store where
  "cycleStore =
     (\<lambda>a. emptySchema)
       (20 := emptySchema\<lparr>type := Some ''object'', properties := Some [(''b'', 21)]\<rparr>,
        21 := emptySchema\<lparr>ref := Some ''B''\<rparr>,
        22 := emptySchema\<lparr>type := Some ''object'', properties := Some [(''a'', 23)]\<rparr>,
        23 := emptySchema\<lparr>ref := Some ''A''\<rparr>)"

definition cycleResolver :: resolver where
  "cycleResolver r = (if r = ''A'' then Some 20 else if r = ''B'' then Some 22 else None)"

text \<open>
  \<^verbatim>\<open>{allOf: [{type: 'object', properties: {p: First}}, {type: 'object', properties: {p:
  Second}}]}\<close> at address 30, the alternatives at 31 and 32, \<^verbatim>\<open>First = {storage: 'ref',
  entityType: 'First'}\<close> at 33 and \<^verbatim>\<open>Second = {storage: 'copy', entityType: 'Second'}\<close>
  at 34.
\<close>

definition allOfStore :: store where
  "allOfStore =
     (\<lambda>a. emptySchema)
       (30 := emptySchema\<lparr>allOf := Some [31, 32]\<rparr>,
        31 := emptySchema\<lparr>type := Some ''object'', properties := Some [(''p'', 33)]\<rparr>,
        32 := emptySchema\<lparr>type := Some ''object'', properties := Some [(''p'', 34)]\<rparr>,
        33 := emptySchema\<lparr>storage := Some ''ref'', entityType := Some ''First''\<rparr>,
        34 := emptySchema\<lparr>storage := Some ''copy'', entityType := Some ''Second''\<rparr>)"

definition noResolver :: resolver where
  "noResolver r = None"

text \<open>
  \<^verbatim>\<open>{storage: 'inverse-ref'}\<close> at address 40, a relationship without a foreign key.
\<close>

definition inverseRefStore :: store where
  "inverseRefStore = (\<lambda>a. emptySchema)(40 := emptySchema\<lparr>storage := Some ''inverse-ref''\<rparr>)"

text \<open>
  \<^verbatim>\<open>{$ref: 'Inv'}\<close> at address 45, with \<^verbatim>\<open>Inv = {storage: 'inverse-ref'}\<close> at 46: the
  storage is declared by the referenced schema only.
\<close>

definition referencedStorageStore :: store where
  "referencedStorageStore =
     (\<lambda>a. emptySchema)
       (45 := emptySchema\<lparr>ref := Some ''Inv''\<rparr>,
        46 := emptySchema\<lparr>storage := Some ''inverse-ref''\<rparr>)"

definition referencedStorageResolver :: resolver where
  "referencedStorageResolver r = (if r = ''Inv'' then Some 46 else None)"

definition emptyRegistry :: registry where
  "emptyRegistry = \<lparr>schemas = (\<lambda>schemaId. None), schemaRefTranslator = (\<lambda>refPath. refPath)\<rparr>"

text \<open>
  \<^verbatim>\<open>{type: 'object', properties: {p: {$ref: 'T', transient: false}}}\<close> at address 50, its
  property at 51, and \<^verbatim>\<open>T = {type: 'string', transient: true}\<close> at 52.
\<close>

definition transientStore :: store where
  "transientStore =
     (\<lambda>a. emptySchema)
       (50 := emptySchema\<lparr>type := Some ''object'', properties := Some [(''p'', 51)]\<rparr>,
        51 := emptySchema\<lparr>ref := Some ''T'', transient := Some False\<rparr>,
        52 := emptySchema\<lparr>type := Some ''string'', transient := Some True\<rparr>)"

definition transientResolver :: resolver where
  "transientResolver r = (if r = ''T'' then Some 52 else None)"

text \<open>
  \<^verbatim>\<open>{type: 'object', required: ['a'], properties: {a: {type: 'object', required: ['b'],
  properties: {b: {type: 'string'}}}}}\<close> at address 60, \<^verbatim>\<open>a\<close> at 61, \<^verbatim>\<open>b\<close> at 62.
\<close>

definition requiredStore :: store where
  "requiredStore =
     (\<lambda>a. emptySchema)
       (60 := emptySchema\<lparr>type := Some ''object'', required := Some [''a''],
                properties := Some [(''a'', 61)]\<rparr>,
        61 := emptySchema\<lparr>type := Some ''object'', required := Some [''b''],
                properties := Some [(''b'', 62)]\<rparr>,
        62 := emptySchema\<lparr>type := Some ''string''\<rparr>)"

text \<open>
  \<^verbatim>\<open>{oneOf: [{type: 'object', properties: {a: {type: 'string'}}}]}\<close> at address 70, its
  alternative, which requires nothing, at 71.
\<close>

definition oneOfStore :: store where
  "oneOfStore =
     (\<lambda>a. emptySchema)
       (70 := emptySchema\<lparr>oneOf := Some [71]\<rparr>,
        71 := emptySchema\<lparr>type := Some ''object'', properties := Some [(''a'', 72)]\<rparr>,
        72 := emptySchema\<lparr>type := Some ''string''\<rparr>)"

text \<open>
  A value that reaches itself through an array: the object \<^verbatim>\<open>o = {children: [o]}\<close> at
  address 80, its array at 81. And one that reaches itself through a field:
  \<^verbatim>\<open>o = {path: 'a', self: o}\<close> at address 90.
\<close>

definition arrayCycleStore :: value_store where
  "arrayCycleStore =
     (\<lambda>a. ObjectCell [])
       (80 := ObjectCell [(''children'', VRef 81)], 81 := ArrayCell [VRef 80])"

definition selfLoopStore :: value_store where
  "selfLoopStore =
     (\<lambda>a. ObjectCell [])(90 := ObjectCell [(''path'', VStr ''a''), (''self'', VRef 90)])"

text \<open>
  A plain object schema has type \<^verbatim>\<open>object\<close> and neither a reference nor a composition.
  It defines a property when its \<^verbatim>\<open>properties\<close> hold the name.
\<close>

definition plainObject :: "schema_node \<Rightarrow> bool" where
  "plainObject node =
     (truthyStr (ref node) = None \<and> allOf node = None \<and> oneOf node = None
      \<and> type node = Some ''object'')"

definition definesProperty :: "schema_node \<Rightarrow> string \<Rightarrow> addr \<Rightarrow> bool" where
  "definesProperty node p d = (plainObject node \<and> getProperty node (Key p) = Found d)"

section \<open>Results\<close>

subsection \<open>Evaluation and fuel\<close>

lemmas evalDefs = emptySchema_def truthyStr_def propsOfNode_def spreadProps_def
  spreadField_def fieldValue_def ownRelationship_def relationshipIsReference_def limitArr_def
  propertiesToTraverse_def schemaOptions_def depthExceeded_def pathDepth_def
  propertyPathToArray_def propertyPathToDottedPath_def arrayToDottedPath_def segToString_def
  getProperty_def isInteger_def requiredNames_def

lemma resolveOption_more_fuel:
  "resolveOption n h r x = Some y \<Longrightarrow> resolveOption (n + k) h r x = Some y"
proof (induction n h r x rule: resolveOption.induct)
  case (1 h r x)
  then show ?case by simp
next
  case (2 n h r)
  then show ?case by simp
next
  case (3 n h r a)
  then show ?case by (cases "truthyStr (ref (h a))") auto
qed

lemma resolveOption_same_refs:
  "(\<And>a. ref (h' a) = ref (h a)) \<Longrightarrow> resolveOption n h' r x = resolveOption n h r x"
proof (induction n h r x rule: resolveOption.induct)
  case (1 h r x)
  then show ?case by simp
next
  case (2 n h r)
  then show ?case by simp
next
  case (3 n h r a)
  then show ?case by (cases "truthyStr (ref (h a))") auto
qed

lemma followRefs_more_fuel:
  "followRefs n h r s rp = Some y \<Longrightarrow> followRefs (n + k) h r s rp = Some y"
proof (induction n h r s rp rule: followRefs.induct)
  case (1 h r s rp)
  then show ?case by simp
next
  case (2 n h r s rp)
  then show ?case
    by (cases "truthyStr (ref (h s))") (auto split: option.splits)
qed

lemma spreadProps_propsOfNode: "spreadProps base (propsOfNode node) = propsOfNode node"
  by (simp add: spreadProps_def propsOfNode_def spreadField_def)

lemma followRefs_keeps_props:
  "followRefs n h r s (propsOfNode node) = Some (Some (t, rp)) \<Longrightarrow> rp = propsOfNode node"
proof (induction n arbitrary: s)
  case 0
  then show ?case by simp
next
  case (Suc n)
  then show ?case
    by (cases "truthyStr (ref (h s))") (auto simp: spreadProps_propsOfNode split: option.splits)
qed

lemma followRefs_no_ref:
  "truthyStr (ref (h s)) = None \<Longrightarrow> followRefs (Suc n) h r s rp = Some (Some (s, rp))"
  by simp

lemma concatResults_all_Inr:
  "concatResults (map (\<lambda>rs. Some (Inr rs)) rss) = Some (Inr (concat rss))"
  by (induction rss) auto

lemma anyOptionRequires_none:
  "list_all (\<lambda>x. x = Some ReqFalse \<or> x = Some ReqUndefined) rs
   \<Longrightarrow> anyOptionRequires rs = Some ReqUndefined"
  by (induction rs) auto

text \<open>
  Fuel only bounds the number of calls: a result reached with some fuel is the result
  with any larger fuel. So "returns \<open>v\<close>" is "returns \<open>v\<close> for every fuel from some
  point on", and \<open>None\<close> for every fuel is a call that never returns.
\<close>

lemma anyOptionRequires_mono:
  "anyOptionRequires (map f xs) = Some v
   \<Longrightarrow> (\<And>x w. x \<in> set xs \<Longrightarrow> f x = Some w \<Longrightarrow> g x = Some w)
   \<Longrightarrow> anyOptionRequires (map g xs) = Some v"
proof (induction xs)
  case Nil
  then show ?case by simp
next
  case (Cons x xs)
  then show ?case
    by (cases "f x") (auto split: if_splits)
qed

lemma propertyIsRequiredInSchema_more_fuel:
  "propertyIsRequiredInSchema n h s p r = Some v \<Longrightarrow> n \<le> m
   \<Longrightarrow> propertyIsRequiredInSchema m h s p r = Some v"
proof (induction n arbitrary: s p v m)
  case 0
  then show ?case by simp
next
  case (Suc n)
  from Suc.prems(2) obtain m' where m: "m = Suc m'" and le: "n \<le> m'"
    by (cases m) auto
  have IH: "propertyIsRequiredInSchema n h s' p' r = Some w
            \<Longrightarrow> propertyIsRequiredInSchema m' h s' p' r = Some w" for s' p' w
    using le by (rule Suc.IH [rotated])
  show ?case
  proof (cases "truthyStr (ref (h s))")
    case (Some a)
    with Suc.prems(1) IH show ?thesis
      unfolding m by (auto split: option.splits)
  next
    case None
    note noref = this
    show ?thesis
    proof (cases "schemaOptions (h s)")
      case (Some opts)
      from Suc.prems(1) noref Some
      have "anyOptionRequires (map (\<lambda>schemaOption.
              propertyIsRequiredInSchema n h schemaOption p r) opts) = Some v"
        by simp
      then have "anyOptionRequires (map (\<lambda>schemaOption.
              propertyIsRequiredInSchema m' h schemaOption p r) opts) = Some v"
        by (rule anyOptionRequires_mono) (rule IH)
      with noref Some show ?thesis
        unfolding m by simp
    next
      case None
      with Suc.prems(1) noref IH show ?thesis
        unfolding m
        by (auto simp: Let_def split: option.splits list.splits segment.splits lookup.splits if_splits)
    qed
  qed
qed

lemma concatResults_mono:
  "concatResults (map f xs) = Some v
   \<Longrightarrow> (\<And>x w. x \<in> set xs \<Longrightarrow> f x = Some w \<Longrightarrow> g x = Some w)
   \<Longrightarrow> concatResults (map g xs) = Some v"
proof (induction xs arbitrary: v)
  case Nil
  then show ?case by simp
next
  case (Cons x xs)
  show ?case
  proof (cases "f x")
    case None
    with Cons.prems show ?thesis by simp
  next
    case (Some w)
    then have g: "g x = Some w" using Cons.prems(2) by simp
    show ?thesis
    proof (cases w)
      case (Inl e)
      with Some Cons.prems(1) have "v = Inl e" by simp
      with g Inl show ?thesis by simp
    next
      case (Inr ys)
      with Some Cons.prems(1) obtain u where u: "concatResults (map f xs) = Some u"
        by (auto split: option.splits)
      then have "concatResults (map g xs) = Some u"
        using Cons.prems(2) by (intro Cons.IH) auto
      with u Some g Inr Cons.prems(1) show ?thesis by simp
    qed
  qed
qed

lemma concatPaths_mono:
  "concatPaths (map f xs) = Some v
   \<Longrightarrow> (\<And>x w. x \<in> set xs \<Longrightarrow> f x = Some w \<Longrightarrow> g x = Some w)
   \<Longrightarrow> concatPaths (map g xs) = Some v"
proof (induction xs arbitrary: v)
  case Nil
  then show ?case by simp
next
  case (Cons x xs)
  show ?case
  proof (cases "f x")
    case None
    with Cons.prems show ?thesis by simp
  next
    case (Some w)
    then have g: "g x = Some w" using Cons.prems(2) by simp
    from Some Cons.prems(1) obtain u where u: "concatPaths (map f xs) = Some u"
      by (auto split: option.splits)
    then have "concatPaths (map g xs) = Some u"
      using Cons.prems(2) by (intro Cons.IH) auto
    with u Some g Cons.prems(1) show ?thesis by simp
  qed
qed


lemma concatResults_cons_mono:
  assumes "concatResults (Some x # map f xs) = Some v"
    and "\<And>y w. y \<in> set xs \<Longrightarrow> f y = Some w \<Longrightarrow> g y = Some w"
  shows "concatResults (Some x # map g xs) = Some v"
proof (cases x)
  case (Inl e)
  with assms(1) have "v = Inl e" by simp
  with Inl show ?thesis by simp
next
  case (Inr ys)
  with assms(1) obtain u where u: "concatResults (map f xs) = Some u"
    by (auto split: option.splits)
  then have "concatResults (map g xs) = Some u"
    using assms(2) by (rule concatResults_mono)
  with u Inr assms(1) show ?thesis by simp
qed

lemma concatResults_two_mono:
  "concatResults [Some x, a] = Some v \<Longrightarrow> (\<And>w. a = Some w \<Longrightarrow> b = Some w)
   \<Longrightarrow> concatResults [Some x, b] = Some v"
  using concatResults_cons_mono [of x "\<lambda>u. a" "[()]" v "\<lambda>u. b"] by simp

lemma followRefs_le:
  "followRefs n h r s rp = Some y \<Longrightarrow> n \<le> m \<Longrightarrow> followRefs m h r s rp = Some y"
  using followRefs_more_fuel [of n h r s rp y "m - n"] by simp

lemma findRelationshipsInSchema_more_fuel:
  "findRelationshipsInSchema n h s r allowedStorage limitToPath maxDepth currentPath nodes dfp
     = Some v
   \<Longrightarrow> n \<le> m
   \<Longrightarrow> findRelationshipsInSchema m h s r allowedStorage limitToPath maxDepth currentPath nodes dfp
     = Some v"
proof (induction n arbitrary: s limitToPath maxDepth currentPath nodes dfp v m)
  case 0
  then show ?case by simp
next
  case (Suc n)
  from Suc.prems(2) obtain m' where m: "m = Suc m'" and le: "n \<le> m'"
    by (cases m) auto
  have IH: "findRelationshipsInSchema n h s' r allowedStorage l md c ns d = Some w
            \<Longrightarrow> findRelationshipsInSchema m' h s' r allowedStorage l md c ns d = Some w"
    for s' l md c ns d w
    using le by (rule Suc.IH [rotated])
  from Suc.prems(1) obtain y where f: "followRefs n h r s (propsOfNode (h s)) = Some y"
    by (cases "followRefs n h r s (propsOfNode (h s))") auto
  then have f': "followRefs m' h r s (propsOfNode (h s)) = Some y"
    using le by (rule followRefs_le)
  show ?case
  proof (cases y)
    case None
    with Suc.prems(1) f f' show ?thesis
      unfolding m by simp
  next
    case (Some tp)
    obtain t rp where tp: "tp = (t, rp)"
      by (cases tp)
    from Suc.prems(1) f f' \<open>y = Some tp\<close> tp show ?thesis
      unfolding m
      by (auto simp del: concatResults.simps simp: Let_def
          split: sum.splits if_splits option.splits
          elim!: concatResults_cons_mono concatResults_two_mono intro: IH)
  qed
qed


lemma followRefsTransient_more_fuel:
  "followRefsTransient n h r s tv = Some y \<Longrightarrow> n \<le> m
   \<Longrightarrow> followRefsTransient m h r s tv = Some y"
proof (induction n arbitrary: s tv m)
  case 0
  then show ?case by simp
next
  case (Suc n)
  from Suc.prems(2) obtain m' where m: "m = Suc m'" and le: "n \<le> m'"
    by (cases m) auto
  from Suc.prems(1) Suc.IH le show ?case
    unfolding m by (auto split: option.splits)
qed

lemma concatPaths_cons_mono:
  assumes "concatPaths (Some x # map f xs) = Some v"
    and "\<And>y w. y \<in> set xs \<Longrightarrow> f y = Some w \<Longrightarrow> g y = Some w"
  shows "concatPaths (Some x # map g xs) = Some v"
proof -
  from assms(1) obtain u where u: "concatPaths (map f xs) = Some u"
    by (auto split: option.splits)
  then have "concatPaths (map g xs) = Some u"
    using assms(2) by (rule concatPaths_mono)
  with u assms(1) show ?thesis by simp
qed

lemma concatPaths_two_mono:
  "concatPaths [Some x, a] = Some v \<Longrightarrow> (\<And>w. a = Some w \<Longrightarrow> b = Some w)
   \<Longrightarrow> concatPaths [Some x, b] = Some v"
  using concatPaths_cons_mono [of x "\<lambda>u. a" "[()]" v "\<lambda>u. b"] by simp

lemma findTransientPropertiesInSchema_more_fuel:
  "findTransientPropertiesInSchema n h s r limitToPath maxDepth currentPath nodes = Some v
   \<Longrightarrow> n \<le> m
   \<Longrightarrow> findTransientPropertiesInSchema m h s r limitToPath maxDepth currentPath nodes = Some v"
proof (induction n arbitrary: s limitToPath maxDepth currentPath nodes v m)
  case 0
  then show ?case by simp
next
  case (Suc n)
  from Suc.prems(2) obtain m' where m: "m = Suc m'" and le: "n \<le> m'"
    by (cases m) auto
  have IH: "findTransientPropertiesInSchema n h s' r l md c ns = Some w
            \<Longrightarrow> findTransientPropertiesInSchema m' h s' r l md c ns = Some w"
    for s' l md c ns w
    using le by (rule Suc.IH [rotated])
  from Suc.prems(1) obtain y where f: "followRefsTransient n h r s (transient (h s)) = Some y"
    by (cases "followRefsTransient n h r s (transient (h s))") auto
  then have f': "followRefsTransient m' h r s (transient (h s)) = Some y"
    using le by (rule followRefsTransient_more_fuel)
  show ?case
  proof (cases y)
    case None
    with Suc.prems(1) f f' show ?thesis
      unfolding m by simp
  next
    case (Some tp)
    obtain t tv where tp: "tp = (t, tv)"
      by (cases tp)
    from Suc.prems(1) f f' \<open>y = Some tp\<close> tp show ?thesis
      unfolding m
      by (auto simp del: concatPaths.simps simp: Let_def
          split: if_splits option.splits
          elim!: concatPaths_cons_mono concatPaths_two_mono intro: IH)
  qed
qed

lemma resolveOption_le:
  "resolveOption n h r x = Some y \<Longrightarrow> n \<le> m \<Longrightarrow> resolveOption m h r x = Some y"
  using resolveOption_more_fuel [of n h r x y "m - n"] by simp

lemma findProperty_more_fuel:
  "findPropertyInSchema n h s p r = Some v \<Longrightarrow> n \<le> m
   \<Longrightarrow> findPropertyInSchema m h s p r = Some v"
  "findPropertyInOptions n h s b i pa r = Some v \<Longrightarrow> n \<le> m
   \<Longrightarrow> findPropertyInOptions m h s b i pa r = Some v"
proof (induction n arbitrary: h s p b i pa v m)
  case 0
  {
    case 1
    then show ?case by simp
  next
    case 2
    then show ?case by simp
  }
next
  case (Suc n)
  {
    case 1
    from "1.prems"(2) obtain m' where m: "m = Suc m'" and le: "n \<le> m'"
      by (cases m) auto
    have IH1: "findPropertyInSchema n h' s' p' r = Some w
               \<Longrightarrow> findPropertyInSchema m' h' s' p' r = Some w" for h' s' p' w
      using le by (rule Suc.IH(1) [rotated])
    have IH2: "findPropertyInOptions n h' s' b' i' pa' r = Some w
               \<Longrightarrow> findPropertyInOptions m' h' s' b' i' pa' r = Some w" for h' s' b' i' pa' w
      using le by (rule Suc.IH(2) [rotated])
    from "1.prems"(1) show ?case
      unfolding m
      by (auto simp: Let_def split: option.splits list.splits lookup.splits if_splits
          intro: IH1 IH2)
  next
    case 2
    from "2.prems"(2) obtain m' where m: "m = Suc m'" and le: "n \<le> m'"
      by (cases m) auto
    have IH1: "findPropertyInSchema n h' s' p' r = Some w
               \<Longrightarrow> findPropertyInSchema m' h' s' p' r = Some w" for h' s' p' w
      using le by (rule Suc.IH(1) [rotated])
    have IH2: "findPropertyInOptions n h' s' b' i' pa' r = Some w
               \<Longrightarrow> findPropertyInOptions m' h' s' b' i' pa' r = Some w" for h' s' b' i' pa' w
      using le by (rule Suc.IH(2) [rotated])
    have R: "resolveOption n h r x = Some w \<Longrightarrow> resolveOption m' h r x = Some w" for x w
      using le by (rule resolveOption_le [rotated])
    from "2.prems"(1) show ?case
      unfolding m
      by (auto simp: Let_def split: option.splits list.splits lookup.splits if_splits prod.splits
          dest!: R IH1 intro: IH2)
  }
qed


lemma allResults_mono:
  "allResults (map f xs) = Some v
   \<Longrightarrow> (\<And>x w. x \<in> set xs \<Longrightarrow> f x = Some w \<Longrightarrow> g x = Some w)
   \<Longrightarrow> allResults (map g xs) = Some v"
proof (induction xs arbitrary: v)
  case Nil
  then show ?case by simp
next
  case (Cons x xs)
  show ?case
  proof (cases "f x")
    case None
    with Cons.prems show ?thesis by simp
  next
    case (Some w)
    then have g: "g x = Some w" using Cons.prems(2) by simp
    from Some Cons.prems(1) obtain u where u: "allResults (map f xs) = Some u"
      by (auto split: option.splits)
    then have "allResults (map g xs) = Some u"
      using Cons.prems(2) by (intro Cons.IH) auto
    with u Some g Cons.prems(1) show ?thesis by simp
  qed
qed

lemma mapPaths_more_fuel:
  "mapPaths n hv x t visited = Some v \<Longrightarrow> n \<le> m \<Longrightarrow> mapPaths m hv x t visited = Some v"
  "mapPathsKeys n hv kvs t visited obj = Some u \<Longrightarrow> n \<le> m
   \<Longrightarrow> mapPathsKeys m hv kvs t visited obj = Some u"
proof (induction n arbitrary: x visited v kvs obj u m)
  case 0
  {
    case 1
    then show ?case by simp
  next
    case 2
    then show ?case by simp
  }
next
  case (Suc n)
  {
    case 1
    from "1.prems"(2) obtain m' where m: "m = Suc m'" and le: "n \<le> m'"
      by (cases m) auto
    have IH1: "mapPaths n hv x' t vis = Some w \<Longrightarrow> mapPaths m' hv x' t vis = Some w"
      for x' vis w
      using le by (rule Suc.IH(1) [rotated])
    have IH2: "mapPathsKeys n hv fs t vis ob = Some w \<Longrightarrow> mapPathsKeys m' hv fs t vis ob = Some w"
      for fs vis ob w
      using le by (rule Suc.IH(2) [rotated])
    have IH1': "map_option fst (mapPaths n hv x' t []) = Some w
                \<Longrightarrow> map_option fst (mapPaths m' hv x' t []) = Some w" for x' w
      by (auto dest: IH1)
    show ?case
    proof (cases x)
      case (VRef a)
      show ?thesis
      proof (cases "hv a")
        case (ArrayCell elements)
        with "1.prems"(1) VRef obtain ys where
          ys: "allResults (map (\<lambda>element. map_option fst (mapPaths n hv element t [])) elements)
               = Some ys" and v: "v = (MArr ys, visited)"
          by (auto split: option.splits)
        from ys have "allResults (map (\<lambda>element. map_option fst (mapPaths m' hv element t []))
            elements) = Some ys"
          by (rule allResults_mono) (rule IH1')
        with VRef ArrayCell v show ?thesis
          unfolding m by simp
      next
        case (ObjectCell kvs')
        with "1.prems"(1) VRef obtain w where
          w: "mapPathsKeys n hv kvs' t (visited @ [a]) [] = Some w"
          by (auto split: option.splits)
        then have "mapPathsKeys m' hv kvs' t (visited @ [a]) [] = Some w"
          by (rule IH2)
        with w "1.prems"(1) VRef ObjectCell show ?thesis
          unfolding m by simp
      qed
    qed (use "1.prems"(1) in \<open>simp_all add: m\<close>)
  next
    case 2
    from "2.prems"(2) obtain m' where m: "m = Suc m'" and le: "n \<le> m'"
      by (cases m) auto
    have IH1: "mapPaths n hv x' t vis = Some w \<Longrightarrow> mapPaths m' hv x' t vis = Some w"
      for x' vis w
      using le by (rule Suc.IH(1) [rotated])
    have IH2: "mapPathsKeys n hv fs t vis ob = Some w \<Longrightarrow> mapPathsKeys m' hv fs t vis ob = Some w"
      for fs vis ob w
      using le by (rule Suc.IH(2) [rotated])
    show ?case
    proof (cases kvs)
      case Nil
      with "2.prems"(1) show ?thesis
        unfolding m by simp
    next
      case (Cons kv rest)
      obtain key val where kv: "kv = (key, val)"
        by (cases kv)
      show ?thesis
      proof (cases "pathField key val")
        case (Some s)
        with "2.prems"(1) Cons kv show ?thesis
          unfolding m by (auto split: prod.splits intro: IH2)
      next
        case None
        show ?thesis
        proof (cases "includesValue visited val")
          case True
          with "2.prems"(1) Cons kv None show ?thesis
            unfolding m by (auto intro: IH2)
        next
          case False
          with "2.prems"(1) Cons kv None obtain mv vis' where
            c: "mapPaths n hv val t visited = Some (mv, vis')"
            and k: "mapPathsKeys n hv rest t vis' (setKey key mv obj) = Some u"
            by (auto split: option.splits)
          from c have "mapPaths m' hv val t visited = Some (mv, vis')"
            by (rule IH1)
          moreover from k have "mapPathsKeys m' hv rest t vis' (setKey key mv obj) = Some u"
            by (rule IH2)
          ultimately show ?thesis
            using Cons kv None False unfolding m by simp
        qed
      qed
    qed
  }
qed

lemma personNodes:
  "personStore 10 = emptySchema\<lparr>type := Some ''object'',
                properties := Some [(''name'', 11), (''manager'', 12)]\<rparr>"
  "personStore 11 = emptySchema\<lparr>type := Some ''string''\<rparr>"
  "personStore 12 = emptySchema\<lparr>ref := Some ''#Person'', storage := Some ''ref'',
                entityType := Some ''Person''\<rparr>"
  by (simp_all add: personStore_def)

lemma cycleNodes:
  "cycleStore 20 = emptySchema\<lparr>type := Some ''object'', properties := Some [(''b'', 21)]\<rparr>"
  "cycleStore 21 = emptySchema\<lparr>ref := Some ''B''\<rparr>"
  "cycleStore 22 = emptySchema\<lparr>type := Some ''object'', properties := Some [(''a'', 23)]\<rparr>"
  "cycleStore 23 = emptySchema\<lparr>ref := Some ''A''\<rparr>"
  by (simp_all add: cycleStore_def)

lemma allOfNodes:
  "allOfStore 30 = emptySchema\<lparr>allOf := Some [31, 32]\<rparr>"
  "allOfStore 31 = emptySchema\<lparr>type := Some ''object'', properties := Some [(''p'', 33)]\<rparr>"
  "allOfStore 32 = emptySchema\<lparr>type := Some ''object'', properties := Some [(''p'', 34)]\<rparr>"
  "allOfStore 33 = emptySchema\<lparr>storage := Some ''ref'', entityType := Some ''First''\<rparr>"
  "allOfStore 34 = emptySchema\<lparr>storage := Some ''copy'', entityType := Some ''Second''\<rparr>"
  by (simp_all add: allOfStore_def)

lemma transientNodes:
  "transientStore 50 = emptySchema\<lparr>type := Some ''object'', properties := Some [(''p'', 51)]\<rparr>"
  "transientStore 51 = emptySchema\<lparr>ref := Some ''T'', transient := Some False\<rparr>"
  "transientStore 52 = emptySchema\<lparr>type := Some ''string'', transient := Some True\<rparr>"
  by (simp_all add: transientStore_def)

lemma requiredNodes:
  "requiredStore 60 = emptySchema\<lparr>type := Some ''object'', required := Some [''a''],
                properties := Some [(''a'', 61)]\<rparr>"
  "requiredStore 61 = emptySchema\<lparr>type := Some ''object'', required := Some [''b''],
                properties := Some [(''b'', 62)]\<rparr>"
  by (simp_all add: requiredStore_def)

lemma oneOfNodes:
  "oneOfStore 70 = emptySchema\<lparr>oneOf := Some [71]\<rparr>"
  "oneOfStore 71 = emptySchema\<lparr>type := Some ''object'', properties := Some [(''a'', 72)]\<rparr>"
  by (simp_all add: oneOfStore_def)

lemma arrayCycleCells:
  "arrayCycleStore 80 = ObjectCell [(''children'', VRef 81)]"
  "arrayCycleStore 81 = ArrayCell [VRef 80]"
  by (simp_all add: arrayCycleStore_def)

subsection \<open>The path codec\<close>

lemma bracketMatch_a0: "bracketMatch ''a[0]'' = Some (''a'', ''0'', [])"
  by (simp add: bracketMatch_def indexToken_def isDigit_def lineTerminator_def)

lemma bracketMatch_no_bracket: "CHR ''['' \<notin> set s \<Longrightarrow> bracketMatch s = None"
proof -
  assume "CHR ''['' \<notin> set s"
  then have d: "dropWhile (\<lambda>c. c \<noteq> CHR ''['') s = []"
    by (auto simp: dropWhile_eq_Nil_conv)
  show ?thesis
    unfolding bracketMatch_def Let_def d by simp
qed

lemma parseInt_a: "parseInt ''a'' = JNaN"
  by (simp add: parseInt_def jsWhitespace_def isRadixDigit_def isDigit_def)

text \<open>
  C3 (path round trip), evaluated on the code. The path \<^verbatim>\<open>a[0]\<close> is well formed and has
  no redundant separator; \<^verbatim>\<open>dottedPathToArray\<close> gives \<^verbatim>\<open>['a', NaN]\<close>, since the index is
  parsed from group 1, and \<^verbatim>\<open>arrayToDottedPath\<close> turns that into \<^verbatim>\<open>a[NaN]\<close>, not
  \<^verbatim>\<open>a[0]\<close>. The segment array \<^verbatim>\<open>['a', 'b']\<close> is printed as \<^verbatim>\<open>a.b\<close>, which is read back
  as the single key \<^verbatim>\<open>'a.b'\<close>, since no dot is split without a bracket before it.
\<close>

theorem path_round_trip_fails:
  "dottedPathToArray ''a[0]'' = [Key ''a'', Num JNaN]
   \<and> arrayToDottedPath (dottedPathToArray ''a[0]'') = ''a[NaN]''
   \<and> arrayToDottedPath (dottedPathToArray ''a[0]'') \<noteq> ''a[0]''
   \<and> arrayToDottedPath [Key ''a'', Key ''b''] = ''a.b''
   \<and> dottedPathToArray (arrayToDottedPath [Key ''a'', Key ''b'']) = [Key ''a.b'']
   \<and> dottedPathToArray (arrayToDottedPath [Key ''a'', Key ''b'']) \<noteq> [Key ''a'', Key ''b'']"
proof -
  have 1: "dottedPathToArray ''a[0]'' = [Key ''a'', Num JNaN]"
    by (simp add: dottedPathToArray.simps [of "''a[0]''"] dottedPathToArray.simps [of "[]"]
        bracketMatch_a0 parseInt_a)
  have 2: "arrayToDottedPath [Key ''a'', Num JNaN] = ''a[NaN]''"
    by (simp add: arrayToDottedPath_def segToString_def numToString_def)
  have 3: "arrayToDottedPath [Key ''a'', Key ''b''] = ''a.b''"
    by (simp add: arrayToDottedPath_def segToString_def)
  have 4: "dottedPathToArray ''a.b'' = [Key ''a.b'']"
    by (simp add: dottedPathToArray.simps [of "''a.b''"] bracketMatch_no_bracket)
  show ?thesis
    by (simp add: 1 2 3 4)
qed

subsection \<open>The relationship finder\<close>

text \<open>
  C1 as the claim states it fails. For the \<^verbatim>\<open>Person\<close> schema and \<^verbatim>\<open>maxDepth = 2\<close> the
  code returns two relationships, not one: a node is cut only when its depth is more
  than \<^verbatim>\<open>maxDepth\<close>, so \<^verbatim>\<open>manager.manager\<close> at depth 2 is reported too. And the
  relationship at \<^verbatim>\<open>manager\<close> has \<^verbatim>\<open>depthFromParent = 1\<close>, not 0: the root is no
  reference relationship, so its property gets the depth of the root plus one.
\<close>

theorem person_example_counterexample:
  "map_option (map_sum id (map (\<lambda>r. (path r, depthFromParent r))))
     (findRelationshipsInSchema 7 personStore 10 personResolver None None (Some 2) (PathArr []) [] 0)
   = Some (Inr [(''manager'', 1), (''manager.manager'', 0)])"
  by code_simp

text \<open>
  C1, amended: for the \<^verbatim>\<open>Person\<close> schema and \<^verbatim>\<open>maxDepth = 2\<close>
  \<^verbatim>\<open>findRelationshipsInSchema\<close> returns exactly two relationships, both with storage
  \<^verbatim>\<open>ref\<close> and entity type \<^verbatim>\<open>Person\<close>: \<^verbatim>\<open>manager\<close> with \<^verbatim>\<open>depthFromParent = 1\<close> and
  \<^verbatim>\<open>manager.manager\<close> with \<^verbatim>\<open>depthFromParent = 0\<close>. Nothing at a depth beyond 2 is
  returned. Seven units of fuel are enough, and more fuel gives the same.
\<close>

theorem person_example_two_relationships:
  "findRelationshipsInSchema (Suc (Suc (Suc (Suc (Suc (Suc (Suc n))))))) personStore 10
     personResolver None None (Some 2) (PathArr []) [] 0
   = Some (Inr [managerRelationship ''manager'' 1, managerRelationship ''manager.manager'' 0])"
  by (simp add: personNodes personResolver_def managerRelationship_def evalDefs)

text \<open>
  C2: for the cycle of \<^verbatim>\<open>A\<close> and \<^verbatim>\<open>B\<close>, with \<^verbatim>\<open>maxDepth\<close> and \<^verbatim>\<open>limitToPath\<close> unset,
  \<^verbatim>\<open>findRelationshipsInSchema\<close> and \<^verbatim>\<open>findTransientPropertiesInSchema\<close> return, from
  either schema, and the result is the empty list. Five units of fuel are enough, and
  more fuel gives the same.
\<close>

theorem cycle_terminates:
  "findRelationshipsInSchema (Suc (Suc (Suc (Suc (Suc n))))) cycleStore 20 cycleResolver
     None None None (PathArr []) [] 0 = Some (Inr [])
   \<and> findRelationshipsInSchema (Suc (Suc (Suc (Suc (Suc n))))) cycleStore 22 cycleResolver
     None None None (PathArr []) [] 0 = Some (Inr [])
   \<and> findTransientPropertiesInSchema (Suc (Suc (Suc (Suc (Suc n))))) cycleStore 20 cycleResolver
     None None (PathArr []) [] = Some []
   \<and> findTransientPropertiesInSchema (Suc (Suc (Suc (Suc (Suc n))))) cycleStore 22 cycleResolver
     None None (PathArr []) [] = Some []"
  by (simp add: cycleNodes cycleResolver_def evalDefs)

text \<open>
  C4: in a schema whose \<^verbatim>\<open>allOf\<close> ends with an alternative that defines the property
  \<open>p\<close> (directly or through references), with an earlier alternative that defines it
  too, \<^verbatim>\<open>findPropertyInSchema\<close>, asked for the path that is the one segment \<open>p\<close>,
  returns the definition of the last alternative (and leaves the array reversed). \<^verbatim>\<open>findRelationshipsInSchema\<close> on the same schema returns
  its own relationship followed by the relationships of every alternative, in order:
  when the calls on the alternatives return \<open>rss\<close>, the result is their concatenation.
\<close>

theorem allOf_last_wins_all_contribute:
  assumes pp: "propertyPathToArray pp = [Key p]"
    and noref: "truthyStr (ref (h s)) = None"
    and opts: "allOf (h s) = Some (xs @ [a2])"
    and a1: "a1 \<in> set xs"
    and r1: "resolveOption k h r (Some a1) = Some (Some t1)"
    and d1: "definesProperty (h t1) p d1"
    and r2: "resolveOption k h r (Some a2) = Some (Some t2)"
    and d2: "definesProperty (h t2) p d2"
    and own: "ownRelationship (propsOfNode (h s)) allowedStorage [] s 0 = Inr own"
    and depth: "\<not> depthExceeded maxDepth []"
    and subs: "map (\<lambda>schemaOption.
                  findRelationshipsInSchema m h schemaOption r allowedStorage
                    (map_option PathArr (limitArr limitToPath)) maxDepth (PathArr []) [s] 0)
                (xs @ [a2])
               = map (\<lambda>rs. Some (Inr rs)) rss"
  shows "findPropertyInSchema (Suc (Suc (k + n))) h s pp r
           = Some (Found d2, h(s := (h s)\<lparr>allOf := Some (a2 # rev xs)\<rparr>))
         \<and> findRelationshipsInSchema (Suc m) h s r allowedStorage limitToPath maxDepth
             (PathArr []) [] 0
           = Some (Inr (own @ concat rss))"
proof
  let ?h' = "h(s := (h s)\<lparr>allOf := Some (a2 # rev xs)\<rparr>)"
  from r2 obtain j where k: "k = Suc j"
    by (cases k) auto
  from d2 opts have ne: "t2 \<noteq> s"
    by (auto simp: definesProperty_def plainObject_def)
  have "resolveOption (k + n) ?h' r (Some a2) = resolveOption (k + n) h r (Some a2)"
    by (rule resolveOption_same_refs) simp
  also have "\<dots> = Some (Some t2)"
    using r2 by (rule resolveOption_more_fuel)
  finally have res: "resolveOption (k + n) ?h' r (Some a2) = Some (Some t2)" .
  have leaf: "findPropertyInSchema (k + n) ?h' t2 (PathArr [Key p]) r = Some (Found d2, ?h')"
    using d2 ne by (simp add: k definesProperty_def plainObject_def propertyPathToArray_def)
  have loop: "findPropertyInOptions (Suc (k + n)) ?h' s True 0 [Key p] r = Some (Found d2, ?h')"
    by (simp add: res leaf)
  show "findPropertyInSchema (Suc (Suc (k + n))) h s pp r = Some (Found d2, ?h')"
    using noref opts loop by (simp add: pp)
next
  from subs have "findRelationshipsInSchema m h a2 r allowedStorage
      (map_option PathArr (limitArr limitToPath)) maxDepth (PathArr []) [s] 0 \<noteq> None"
    by (cases rss rule: rev_cases) auto
  then obtain m' where m: "m = Suc m'"
    by (cases m) auto
  have f: "followRefs m h r s (propsOfNode (h s)) = Some (Some (s, propsOfNode (h s)))"
    using noref by (simp add: m)
  have o: "schemaOptions (h s) = Some (xs @ [a2])"
    using opts by (simp add: schemaOptions_def)
  have "findRelationshipsInSchema (Suc m) h s r allowedStorage limitToPath maxDepth (PathArr []) [] 0
        = concatResults (Some (Inr own) # map (\<lambda>rs. Some (Inr rs)) rss)"
    using f own depth o subs by (simp add: propertyPathToArray_def)
  also have "\<dots> = Some (Inr (own @ concat rss))"
    by (simp add: concatResults_all_Inr)
  finally show "findRelationshipsInSchema (Suc m) h s r allowedStorage limitToPath maxDepth
      (PathArr []) [] 0 = Some (Inr (own @ concat rss))" .
qed

theorem allOf_last_wins_all_contribute_witness:
  "findPropertyInSchema 3 allOfStore 30 (PathStr ''p'') noResolver
     = Some (Found 34, allOfStore(30 := (allOfStore 30)\<lparr>allOf := Some [32, 31]\<rparr>))
   \<and> findRelationshipsInSchema 4 allOfStore 30 noResolver None None None (PathArr []) [] 0
     = Some (Inr [\<lparr>path = ''p'', toMany = False, storageClass = ''ref'',
                    entityTypeName = Some ''First'', schemaRef = None, relationshipSchema = 33,
                    foreignKeyPath = None, depthFromParent = 1\<rparr>,
                  \<lparr>path = ''p'', toMany = False, storageClass = ''copy'',
                    entityTypeName = Some ''Second'', schemaRef = None, relationshipSchema = 34,
                    foreignKeyPath = None, depthFromParent = 1\<rparr>])"
proof -
  have pp: "propertyPathToArray (PathStr ''p'') = [Key ''p'']"
    by (simp add: propertyPathToArray_def dottedPathToArray.simps [of "''p''"]
        bracketMatch_no_bracket)
  have s: "truthyStr (ref (allOfStore 30)) = None"
    by (simp add: allOfNodes evalDefs)
  have o: "allOf (allOfStore 30) = Some ([31] @ [32])"
    by (simp add: allOfNodes evalDefs)
  have r1: "resolveOption 1 allOfStore noResolver (Some 31) = Some (Some 31)"
    by (simp add: allOfNodes evalDefs)
  have d1: "definesProperty (allOfStore 31) ''p'' 33"
    by (simp add: definesProperty_def plainObject_def allOfNodes evalDefs)
  have r2: "resolveOption 1 allOfStore noResolver (Some 32) = Some (Some 32)"
    by (simp add: allOfNodes evalDefs)
  have d2: "definesProperty (allOfStore 32) ''p'' 34"
    by (simp add: definesProperty_def plainObject_def allOfNodes evalDefs)
  have own: "ownRelationship (propsOfNode (allOfStore 30)) None [] 30 0 = Inr []"
    by (simp add: allOfNodes evalDefs)
  have depth: "\<not> depthExceeded None []"
    by (simp add: depthExceeded_def)
  have subs: "map (\<lambda>schemaOption.
                  findRelationshipsInSchema 3 allOfStore schemaOption noResolver None
                    (map_option PathArr (limitArr None)) None (PathArr []) [30] 0)
                ([31] @ [32])
               = map (\<lambda>rs. Some (Inr rs))
                  [[\<lparr>path = ''p'', toMany = False, storageClass = ''ref'',
                    entityTypeName = Some ''First'', schemaRef = None, relationshipSchema = 33,
                    foreignKeyPath = None, depthFromParent = 1\<rparr>],
                  [\<lparr>path = ''p'', toMany = False, storageClass = ''copy'',
                    entityTypeName = Some ''Second'', schemaRef = None, relationshipSchema = 34,
                    foreignKeyPath = None, depthFromParent = 1\<rparr>]]"
    by (simp add: numeral_3_eq_3 allOfNodes noResolver_def evalDefs)
  show ?thesis
    using allOf_last_wins_all_contribute [OF pp s o _ r1 d1 r2 d2 own depth subs, of 0]
    by (simp add: numeral_3_eq_3 eval_nat_numeral)
qed

text \<open>
  C5 as the claim states it fails: a node with storage \<^verbatim>\<open>inverse-ref\<close> and no foreign
  key raises nothing when \<^verbatim>\<open>allowedStorage\<close> is set and leaves \<^verbatim>\<open>inverse-ref\<close> out; the
  check of the foreign key is inside the test of \<^verbatim>\<open>allowedStorage\<close>.
\<close>

theorem inverse_ref_counterexample:
  "storage (inverseRefStore 40) = Some ''inverse-ref''
   \<and> foreignKey (inverseRefStore 40) = None
   \<and> findRelationshipsInSchema 2 inverseRefStore 40 noResolver (Some [''ref'']) None None
        (PathArr []) [] 0 = Some (Inr [])
   \<and> registryFindRelationshipsInSchema emptyRegistry 2 inverseRefStore 40 (Some [''ref'']) None None
        = Some (Inr [])"
  by (simp add: numeral_2_eq_2 registryFindRelationshipsInSchema_def inverseRefStore_def
      evalDefs)

text \<open>
  C5, amended: when the reference loop ends and the relationship properties it ends
  with have storage \<^verbatim>\<open>inverse-ref\<close> and no foreign key, and \<^verbatim>\<open>allowedStorage\<close> is unset
  or contains \<^verbatim>\<open>inverse-ref\<close>, then \<^verbatim>\<open>findRelationshipsInSchema\<close> raises the
  \<^verbatim>\<open>SchemaError\<close>, whatever the path limit, the depth limit and the nodes traversed
  are; and the registry's method, called with the registry's resolver, gives the same
  error.
\<close>

theorem inverse_ref_without_foreign_key_raises:
  assumes chain: "followRefs k h r s (propsOfNode (h s)) = Some (Some (t, rp))"
    and st: "fieldValue (rpStorage rp) = Some ''inverse-ref''"
    and fk: "truthyStr (fieldValue (rpForeignKeyPath rp)) = None"
    and allowed: "case allowedStorage of None \<Rightarrow> True | Some al \<Rightarrow> ''inverse-ref'' \<in> set al"
  shows "findRelationshipsInSchema (Suc (k + n)) h s r allowedStorage limitToPath maxDepth
           currentPath nodesTraversedInPath dfp = Some (Inl (SchemaError missingForeignKey))
         \<and> (r = resolveSchemaRef reg \<longrightarrow>
              registryFindRelationshipsInSchema reg (Suc (k + n)) h s allowedStorage limitToPath
                maxDepth = Some (Inl (SchemaError missingForeignKey)))"
proof -
  have f: "followRefs (k + n) h r s (propsOfNode (h s)) = Some (Some (t, rp))"
    using chain by (rule followRefs_more_fuel)
  have o: "ownRelationship rp allowedStorage cp t d = Inl (SchemaError missingForeignKey)" for cp d
    using st fk allowed
    by (auto simp: ownRelationship_def truthyStr_def missingForeignKey_def split: option.splits)
  have raised: "findRelationshipsInSchema (Suc (k + n)) h s r allowedStorage l md c ns d
          = Some (Inl (SchemaError missingForeignKey))" for l md c ns d
    by (simp add: f o)
  show ?thesis
    unfolding registryFindRelationshipsInSchema_def using raised by blast
qed

theorem inverse_ref_without_foreign_key_raises_witness:
  "findRelationshipsInSchema 2 inverseRefStore 40 (resolveSchemaRef emptyRegistry) None None None
     (PathArr []) [] 0 = Some (Inl (SchemaError missingForeignKey))
   \<and> registryFindRelationshipsInSchema emptyRegistry 2 inverseRefStore 40 None None None
     = Some (Inl (SchemaError missingForeignKey))"
proof -
  have chain: "followRefs 1 inverseRefStore (resolveSchemaRef emptyRegistry) 40
      (propsOfNode (inverseRefStore 40)) = Some (Some (40, propsOfNode (inverseRefStore 40)))"
    by (simp add: inverseRefStore_def evalDefs)
  have st: "fieldValue (rpStorage (propsOfNode (inverseRefStore 40))) = Some ''inverse-ref''"
    by (simp add: inverseRefStore_def evalDefs)
  have fk: "truthyStr (fieldValue (rpForeignKeyPath (propsOfNode (inverseRefStore 40)))) = None"
    by (simp add: inverseRefStore_def evalDefs)
  have allowed: "case (None :: string list option) of None \<Rightarrow> True
                 | Some al \<Rightarrow> ''inverse-ref'' \<in> set al"
    by simp
  show ?thesis
    using inverse_ref_without_foreign_key_raises [OF chain st fk allowed,
        where n = 0 and limitToPath = None and maxDepth = None and currentPath = "PathArr []"
          and nodesTraversedInPath = "[]" and dfp = 0 and reg = emptyRegistry]
    by (simp add: numeral_2_eq_2)
qed

text \<open>
  The relationship properties that the reference loop ends with are those of the node the
  call started at (\<open>followRefs_keeps_props\<close>): the spread copies the four keys, also those
  that hold \<^verbatim>\<open>undefined\<close>, over the values of the referenced schema. So a storage that only
  the referenced schema declares has no effect: no relationship, no error.
\<close>

lemma referenced_storage_has_no_effect:
  "followRefs 2 referencedStorageStore referencedStorageResolver 45
     (propsOfNode (referencedStorageStore 45))
     = Some (Some (46, propsOfNode (referencedStorageStore 45)))
   \<and> fieldValue (rpStorage (propsOfNode (referencedStorageStore 45))) = None
   \<and> findRelationshipsInSchema (Suc (Suc (Suc n))) referencedStorageStore 45
       referencedStorageResolver None None None (PathArr []) [] 0 = Some (Inr [])"
  by (simp add: numeral_2_eq_2 referencedStorageStore_def referencedStorageResolver_def evalDefs)

subsection \<open>The transient-property finder\<close>

text \<open>
  C6, evaluated on the code: the property \<^verbatim>\<open>p\<close> declares \<^verbatim>\<open>transient: false\<close> and
  refers to a schema with \<^verbatim>\<open>transient: true\<close>. The reference loop ends with the
  variable \<^verbatim>\<open>transient\<close> at \<^verbatim>\<open>false\<close>, and \<^verbatim>\<open>findTransientPropertiesInSchema\<close> returns
  the path \<^verbatim>\<open>p\<close> all the same, since it tests the flag of the referenced schema.
\<close>

theorem transient_override_ignored:
  "followRefsTransient 2 transientStore transientResolver 51 (transient (transientStore 51))
     = Some (Some (52, Some False))
   \<and> findTransientPropertiesInSchema (Suc (Suc (Suc (Suc n)))) transientStore 50
       transientResolver None None (PathArr []) [] = Some [''p'']"
  by (simp add: numeral_2_eq_2 transientNodes transientResolver_def evalDefs)

subsection \<open>The required-property checker\<close>

text \<open>
  C7: for a plain object schema whose property \<open>a\<close> is a plain object schema, the path
  \<^verbatim>\<open>[a, b]\<close> is required exactly when \<^verbatim>\<open>required\<close> of the root lists \<open>a\<close> and
  \<^verbatim>\<open>required\<close> of the property's schema lists \<open>b\<close>; otherwise the result is \<^verbatim>\<open>false\<close>.
\<close>

theorem nested_required_chain:
  assumes root: "plainObject (h s)"
    and child: "getProperty (h s) (Key a) = Found sub"
    and sub: "plainObject (h sub)"
  shows "propertyIsRequiredInSchema (Suc (Suc n)) h s (PathArr [Key a, Key b]) r
         = Some (if a \<in> set (requiredNames (h s)) \<and> b \<in> set (requiredNames (h sub))
                 then ReqTrue else ReqFalse)"
proof -
  have inner: "propertyIsRequiredInSchema (Suc n) h sub (PathArr [Key b]) r
               = Some (if b \<in> set (requiredNames (h sub)) then ReqTrue else ReqFalse)"
    using sub
    by (cases "getProperty (h sub) (Key b)")
      (simp_all add: plainObject_def schemaOptions_def propertyPathToArray_def)
  show ?thesis
    using root child inner
    by (simp add: plainObject_def schemaOptions_def propertyPathToArray_def)
qed

theorem nested_required_chain_witness:
  "propertyIsRequiredInSchema 2 requiredStore 60 (PathArr [Key ''a'', Key ''b'']) noResolver
     = Some ReqTrue
   \<and> propertyIsRequiredInSchema 2 requiredStore 60 (PathArr [Key ''a'', Key ''c'']) noResolver
     = Some ReqFalse"
proof -
  have root: "plainObject (requiredStore 60)"
    by (simp add: plainObject_def requiredNodes evalDefs)
  have child: "getProperty (requiredStore 60) (Key ''a'') = Found 61"
    by (simp add: requiredNodes evalDefs)
  have sub: "plainObject (requiredStore 61)"
    by (simp add: plainObject_def requiredNodes evalDefs)
  show ?thesis
    using nested_required_chain [OF root child sub, of 0 "''b''" noResolver]
      nested_required_chain [OF root child sub, of 0 "''c''" noResolver]
    by (simp add: numeral_2_eq_2 requiredNodes evalDefs)
qed

text \<open>
  C10: for a schema without reference whose \<^verbatim>\<open>allOf || oneOf\<close> is a non-empty list,
  when the call on every alternative returns \<^verbatim>\<open>false\<close> or \<^verbatim>\<open>undefined\<close>,
  \<^verbatim>\<open>propertyIsRequiredInSchema\<close> returns \<^verbatim>\<open>undefined\<close>, not \<^verbatim>\<open>false\<close>.
\<close>

theorem options_fall_through_undefined:
  assumes noref: "truthyStr (ref (h s)) = None"
    and opts: "schemaOptions (h s) = Some opts"
    and ne: "opts \<noteq> []"
    and none: "list_all (\<lambda>schemaOption.
                 propertyIsRequiredInSchema n h schemaOption p r = Some ReqFalse
                 \<or> propertyIsRequiredInSchema n h schemaOption p r = Some ReqUndefined) opts"
  shows "propertyIsRequiredInSchema (Suc n) h s p r = Some ReqUndefined"
proof -
  have "list_all (\<lambda>x. x = Some ReqFalse \<or> x = Some ReqUndefined)
          (map (\<lambda>schemaOption. propertyIsRequiredInSchema n h schemaOption p r) opts)"
    using none by (simp add: list_all_iff)
  then have "anyOptionRequires
               (map (\<lambda>schemaOption. propertyIsRequiredInSchema n h schemaOption p r) opts)
             = Some ReqUndefined"
    by (rule anyOptionRequires_none)
  then show ?thesis
    using noref opts by simp
qed

theorem options_fall_through_undefined_witness:
  "propertyIsRequiredInSchema 1 oneOfStore 71 (PathArr [Key ''a'']) noResolver = Some ReqFalse
   \<and> propertyIsRequiredInSchema 2 oneOfStore 70 (PathArr [Key ''a'']) noResolver
       = Some ReqUndefined"
proof -
  have alt: "propertyIsRequiredInSchema 1 oneOfStore 71 (PathArr [Key ''a'']) noResolver
             = Some ReqFalse"
    by (simp add: oneOfNodes evalDefs)
  have noref: "truthyStr (ref (oneOfStore 70)) = None"
    by (simp add: oneOfNodes evalDefs)
  have opts: "schemaOptions (oneOfStore 70) = Some [71]"
    by (simp add: oneOfNodes evalDefs)
  have none: "list_all (\<lambda>schemaOption.
                 propertyIsRequiredInSchema 1 oneOfStore schemaOption (PathArr [Key ''a''])
                   noResolver = Some ReqFalse
                 \<or> propertyIsRequiredInSchema 1 oneOfStore schemaOption (PathArr [Key ''a''])
                   noResolver = Some ReqUndefined) [71]"
    using alt by simp
  show ?thesis
    using alt options_fall_through_undefined [OF noref opts _ none]
    by (simp add: numeral_2_eq_2)
qed

subsection \<open>Effects on the schema\<close>

text \<open>
  C8, evaluated on the code: \<^verbatim>\<open>findPropertyInSchema\<close> on the schema with
  \<^verbatim>\<open>allOf: [31, 32]\<close> returns the store with \<^verbatim>\<open>allOf: [32, 31]\<close>: the array of the
  schema argument is reversed. A second call on the same schema then finds the property
  of the other alternative.
\<close>

theorem findProperty_reverses_allOf:
  "findPropertyInSchema 3 allOfStore 30 (PathArr [Key ''p'']) noResolver
     = Some (Found 34, allOfStore(30 := emptySchema\<lparr>allOf := Some [32, 31]\<rparr>))
   \<and> allOf ((allOfStore(30 := emptySchema\<lparr>allOf := Some [32, 31]\<rparr>)) 30) \<noteq> allOf (allOfStore 30)
   \<and> map_option fst (findPropertyInSchema 3 (allOfStore(30 := emptySchema\<lparr>allOf := Some [32, 31]\<rparr>)) 30
        (PathArr [Key ''p'']) noResolver) = Some (Found 33)"
  apply (intro conjI)
    apply (simp add: numeral_3_eq_3 allOfNodes noResolver_def evalDefs)
   apply (simp add: allOfNodes evalDefs)
  apply (simp add: numeral_3_eq_3 allOfNodes noResolver_def evalDefs)
  done

subsection \<open>\<^verbatim>\<open>mapPaths\<close> on a cyclic value\<close>

text \<open>
  C9, evaluated on the code: on the object \<^verbatim>\<open>o = {children: [o]}\<close> \<^verbatim>\<open>mapPaths\<close> has no
  result, whatever the fuel. The call on the array maps its elements with a new
  \<^verbatim>\<open>visited\<close>, so the object is entered again with nothing visited.
\<close>

theorem mapPaths_array_cycle_diverges:
  "mapPaths n arrayCycleStore (VRef 80) transformPath [] = None"
proof (induction n rule: less_induct)
  case (less n)
  show ?case
  proof (cases n)
    case 0
    then show ?thesis by simp
  next
    case (Suc n1)
    note n = this
    show ?thesis
    proof (cases n1)
      case 0
      with n show ?thesis by (simp add: arrayCycleCells)
    next
      case (Suc n2)
      note n1 = this
      show ?thesis
      proof (cases n2)
        case 0
        with n n1 show ?thesis
          by (simp add: arrayCycleCells includesValue_def pathField_def)
      next
        case (Suc n3)
        have "n3 < n" using n n1 Suc by simp
        then have "mapPaths n3 arrayCycleStore (VRef 80) transformPath [] = None"
          by (rule less.IH)
        then show ?thesis
          using n n1 Suc by (simp add: arrayCycleCells includesValue_def pathField_def)
      qed
    qed
  qed
qed

text \<open>
  A cycle through object fields alone is caught: on \<^verbatim>\<open>o = {path: 'a', self: o}\<close> the
  walk ends, the path is transformed and the field \<^verbatim>\<open>self\<close> is left out.
\<close>

lemma mapPaths_self_loop_ends:
  "mapPaths (Suc (Suc (Suc (Suc n)))) selfLoopStore (VRef 90) (\<lambda>s. (s @ ''!'', None)) []
   = Some (MObj [(''path'', MVal (VStr ''a!''))], [90])"
  by (simp add: selfLoopStore_def includesValue_def pathField_def)

subsection \<open>The earlier revision on the examples\<close>

text \<open>
  The earlier revision gives the same results on the examples of C1, C2, C4 and C6.
\<close>

lemma person_example_earlier_revision:
  "findRelationshipsInSchemaEarlier (Suc (Suc (Suc (Suc n)))) personStore 10 personResolver
     None None (Some 2) (PathArr []) [] 0
   = Some (Inr [managerRelationship ''manager'' 1, managerRelationship ''manager.manager'' 0])"
  by (simp add: followRefOnce_def personNodes personResolver_def managerRelationship_def evalDefs)

lemma cycle_terminates_earlier_revision:
  "findRelationshipsInSchemaEarlier (Suc (Suc (Suc n))) cycleStore 20 cycleResolver
     None None None (PathArr []) [] 0 = Some (Inr [])
   \<and> findTransientPropertiesInSchemaEarlier (Suc (Suc (Suc n))) cycleStore 20 cycleResolver
     None None (PathArr []) [] = Some []"
  by (simp add: followRefOnce_def followRefOnceTransient_def cycleNodes cycleResolver_def evalDefs)

lemma transient_override_ignored_earlier_revision:
  "findTransientPropertiesInSchemaEarlier (Suc (Suc n)) transientStore 50 transientResolver
     None None (PathArr []) [] = Some [''p'']"
  by (simp add: followRefOnceTransient_def transientNodes transientResolver_def evalDefs)

lemma allOf_earlier_revision:
  "findPropertyInSchemaEarlier (Suc n) allOfStore 30 (PathArr [Key ''p'']) noResolver
     = Some (Inr (Found 34), allOfStore(30 := (allOfStore 30)\<lparr>allOf := Some [32, 31]\<rparr>))"
  by (simp add: allOfNodes optionalProperty_def pathFirstKey_def pathLength_def evalDefs)

end
